theory Spec2Isabelle
  imports Main
begin

section \<open>SerenaCLI: the result normalizer and the command-line pipeline\<close>

text \<open>
  The development embeds \<^verbatim>\<open>src/serena_cli/main.py\<close> (the normalizer
  \<^verbatim>\<open>transform_symbol_result\<close> and the body of \<^verbatim>\<open>main_async\<close>) and
  \<^verbatim>\<open>SerenaClient.get_status\<close> of the native wrapper.

  Python values that reach the code come out of \<^verbatim>\<open>json.loads\<close>: they are JSON
  values. Strings are modelled as \<open>string\<close> (lists of 8-bit characters), integers as
  \<open>int\<close>. The code never looks inside a float, so the float payload is a type parameter.
  A dictionary is an association list in insertion order with the first binding of a key
  being the one that counts; assignment to a key replaces its binding in place or appends
  a new one, as a Python \<^verbatim>\<open>dict\<close> does.

  The 8-bit characters are read as the code points 0 to 255. On these the string functions
  are Python's: the digits of \<^verbatim>\<open>\d\<close> are \<^verbatim>\<open>0\<close> to \<^verbatim>\<open>9\<close>,
  \<^verbatim>\<open>lower\<close> maps the letters \<^verbatim>\<open>A\<close> to \<^verbatim>\<open>Z\<close> and the capitals
  U+00C0 to U+00DE (the multiplication sign U+00D7 apart) to the code point 32 above, and
  \<^verbatim>\<open>strip\<close> removes the white space U+0009 to U+000D, U+001C to U+0020, U+0085
  and U+00A0. \<^verbatim>\<open>os.path\<close> is the POSIX one.
\<close>

subsection \<open>JSON values and the Python primitives the code uses\<close>

datatype 'f json =
    JNull
  | JBool bool
  | JInt int
  | JFloat 'f
  | JStr string
  | JList "'f json list"
  | JObj "(string \<times> 'f json) list"

text \<open>Exceptions are values; only the class of an exception is kept.\<close>

datatype error =
    TypeError
  | AttributeError
  | KeyError
  | JSONDecodeError
  | RuntimeError
  | OtherError string

definition bnd :: "error + 'a \<Rightarrow> ('a \<Rightarrow> error + 'b) \<Rightarrow> error + 'b" where
  "bnd m f = (case m of Inl e \<Rightarrow> Inl e | Inr x \<Rightarrow> f x)"

primrec dict_set :: "(string \<times> 'v) list \<Rightarrow> string \<Rightarrow> 'v \<Rightarrow> (string \<times> 'v) list" where
  "dict_set [] k v = [(k, v)]"
| "dict_set (p # ps) k v = (if fst p = k then (k, v) # ps else p # dict_set ps k v)"

text \<open>\<^verbatim>\<open>needle in hay\<close> for two strings: the substring test.\<close>

primrec contains_str :: "string \<Rightarrow> string \<Rightarrow> bool" where
  "contains_str needle [] = (needle = [])"
| "contains_str needle (c # cs) =
     (take (length needle) (c # cs) = needle \<or> contains_str needle cs)"

text \<open>
  \<^verbatim>\<open>key in obj\<close> for a string key: a key test on a dict, a substring test on a
  string, a membership test on a list, and a \<^verbatim>\<open>TypeError\<close> on everything else
  (``argument of type 'int' is not iterable'').
\<close>

fun py_in :: "string \<Rightarrow> 'f json \<Rightarrow> error + bool" where
  "py_in key (JObj d) = Inr (map_of d key \<noteq> None)"
| "py_in key (JStr s) = Inr (contains_str key s)"
| "py_in key (JList xs) = Inr (JStr key \<in> set xs)"
| "py_in key _ = Inl TypeError"

text \<open>\<^verbatim>\<open>obj[key]\<close> for a string key.\<close>

fun py_getitem :: "'f json \<Rightarrow> string \<Rightarrow> error + 'f json" where
  "py_getitem (JObj d) key = (case map_of d key of None \<Rightarrow> Inl KeyError | Some v \<Rightarrow> Inr v)"
| "py_getitem _ key = Inl TypeError"

text \<open>\<^verbatim>\<open>obj[key] = v\<close> for a string key; the updated object is returned.\<close>

fun py_setitem :: "'f json \<Rightarrow> string \<Rightarrow> 'f json \<Rightarrow> error + 'f json" where
  "py_setitem (JObj d) key v = Inr (JObj (dict_set d key v))"
| "py_setitem _ key v = Inl TypeError"

text \<open>\<^verbatim>\<open>obj.get(key, default)\<close>: only a dict has the method.\<close>

fun py_get :: "'f json \<Rightarrow> string \<Rightarrow> 'f json \<Rightarrow> error + 'f json" where
  "py_get (JObj d) key dflt = Inr (case map_of d key of None \<Rightarrow> dflt | Some v \<Rightarrow> v)"
| "py_get _ key dflt = Inl AttributeError"

text \<open>
  \<^verbatim>\<open>isinstance(v, int)\<close> holds for integers and, \<^verbatim>\<open>bool\<close> being a subclass of
  \<^verbatim>\<open>int\<close>, for booleans; \<^verbatim>\<open>isinstance(v, dict)\<close> holds for dicts only.
\<close>

fun isinstance_int :: "'f json \<Rightarrow> bool" where
  "isinstance_int (JInt k) = True"
| "isinstance_int (JBool b) = True"
| "isinstance_int _ = False"

fun isinstance_dict :: "'f json \<Rightarrow> bool" where
  "isinstance_dict (JObj d) = True"
| "isinstance_dict _ = False"

subsection \<open>Strings: \<^verbatim>\<open>str\<close>, \<^verbatim>\<open>lower\<close>, \<^verbatim>\<open>split\<close>, \<^verbatim>\<open>endswith\<close>, \<^verbatim>\<open>re.sub\<close>, \<^verbatim>\<open>splitext\<close>\<close>

definition digit_char :: "nat \<Rightarrow> char" where
  "digit_char d = char_of (48 + d)"

fun str_nat :: "nat \<Rightarrow> string" where
  "str_nat n = (if n < 10 then [digit_char n] else str_nat (n div 10) @ [digit_char (n mod 10)])"

declare str_nat.simps [simp del]

text \<open>
  \<^verbatim>\<open>str\<close> of an integer: the decimal digits, after a minus sign for a negative one.
  (Python refuses to convert integers of more than 4300 digits; \<^verbatim>\<open>json.loads\<close>
  refuses to read them, so none reaches the code.)
\<close>

definition str_int :: "int \<Rightarrow> string" where
  "str_int k = (if k < 0 then CHR ''-'' # str_nat (nat (- k)) else str_nat (nat k))"

text \<open>
  \<^verbatim>\<open>str.lower()\<close> on the code points 0 to 255: the cased capitals are
  \<^verbatim>\<open>A\<close> to \<^verbatim>\<open>Z\<close> (65 to 90) and U+00C0 to U+00DE (192 to 222) without the
  multiplication sign U+00D7 (215); each has its lower-case letter 32 above.
\<close>

definition char_lower :: "char \<Rightarrow> char" where
  "char_lower c =
     (let n = (of_char c :: nat) in
      if (65 \<le> n \<and> n \<le> 90) \<or> (192 \<le> n \<and> n \<le> 222 \<and> n \<noteq> 215)
      then char_of (n + 32) else c)"

definition lower :: "string \<Rightarrow> string" where
  "lower s = map char_lower s"

text \<open>\<^verbatim>\<open>s.split(sep)\<close> for a one-character separator: never an empty list.\<close>

fun split_on :: "char \<Rightarrow> string \<Rightarrow> string list" where
  "split_on sep [] = [[]]"
| "split_on sep (c # cs) =
     (if c = sep then [] # split_on sep cs
      else (case split_on sep cs of [] \<Rightarrow> [[c]] | p # ps \<Rightarrow> (c # p) # ps))"

definition endswith :: "string \<Rightarrow> char \<Rightarrow> bool" where
  "endswith s c = (s \<noteq> [] \<and> last s = c)"

definition is_digit :: "char \<Rightarrow> bool" where
  "is_digit c = (let n = (of_char c :: nat) in 48 \<le> n \<and> n \<le> 57)"

text \<open>
  The regular expression \<^verbatim>\<open>\[\d+\]$\<close> tried at the head of a string: an opening
  bracket, the longest run of digits (one at least; a shorter run cannot be followed by the
  closing bracket), the closing bracket, and then \<^verbatim>\<open>$\<close>, which Python matches at
  the end of the string and just before a newline that ends the string. The result is the
  length of the match.
\<close>

definition match_index_suffix :: "string \<Rightarrow> nat option" where
  "match_index_suffix s =
     (case s of
        [] \<Rightarrow> None
      | c # rest \<Rightarrow>
          if c \<noteq> CHR ''['' then None
          else (let ds = takeWhile is_digit rest; tl = dropWhile is_digit rest in
                if ds = [] then None
                else (case tl of
                        [] \<Rightarrow> None
                      | b # after \<Rightarrow>
                          if b = CHR '']'' \<and> (after = [] \<or> after = [CHR 0x0A])
                          then Some (length ds + 2) else None)))"

text \<open>
  \<^verbatim>\<open>re.sub(r'\[\d+\]$', '', s)\<close>: scan from the left, delete every match and go on
  after it.
\<close>

function re_sub_index_suffix :: "string \<Rightarrow> string" where
  "re_sub_index_suffix [] = []"
| "re_sub_index_suffix (c # cs) =
     (case match_index_suffix (c # cs) of
        Some n \<Rightarrow> re_sub_index_suffix (drop n (c # cs))
      | None \<Rightarrow> c # re_sub_index_suffix cs)"
  by pat_completeness auto
termination
proof (relation "measure length")
  show "wf (measure length)" by simp
next
  fix c :: char and cs :: string and n :: nat
  assume "match_index_suffix (c # cs) = Some n"
  then have "0 < n"
    by (auto simp: match_index_suffix_def Let_def split: list.splits if_splits)
  then show "(drop n (c # cs), c # cs) \<in> measure length" by (cases n) auto
next
  fix c :: char and cs :: string
  show "(cs, c # cs) \<in> measure length" by simp
qed

text \<open>
  \<^verbatim>\<open>os.path.splitext(p)[1]\<close> (POSIX): the extension starts at the last dot of
  the last path component, provided a character other than a dot stands before it in that
  component; otherwise it is empty.
\<close>

definition splitext_ext :: "string \<Rightarrow> string" where
  "splitext_ext p =
     (let base = rev (takeWhile (\<lambda>c. c \<noteq> CHR ''/'') (rev p));
          rext = takeWhile (\<lambda>c. c \<noteq> CHR ''.'') (rev base);
          rstem = dropWhile (\<lambda>c. c \<noteq> CHR ''.'') (rev base)
      in case rstem of
           [] \<Rightarrow> []
         | dot # stem \<Rightarrow>
             if (\<exists>c \<in> set stem. c \<noteq> CHR ''.'') then dot # rev rext else [])"

subsection \<open>The symbol-kind table\<close>

text \<open>The table of \<^verbatim>\<open>get_symbol_kind_name\<close> (LSP SymbolKind).\<close>

definition kinds :: "(int \<times> string) list" where
  "kinds =
     [(1, ''File''), (2, ''Module''), (3, ''Namespace''), (4, ''Package''), (5, ''Class''),
      (6, ''Method''), (7, ''Property''), (8, ''Field''), (9, ''Constructor''), (10, ''Enum''),
      (11, ''Interface''), (12, ''Function''), (13, ''Variable''), (14, ''Constant''),
      (15, ''String''), (16, ''Number''), (17, ''Boolean''), (18, ''Array''), (19, ''Object''),
      (20, ''Key''), (21, ''Null''), (22, ''EnumMember''), (23, ''Struct''), (24, ''Event''),
      (25, ''Operator''), (26, ''TypeParameter'')]"

text \<open>
  The argument of \<^verbatim>\<open>get_symbol_kind_name\<close> is whatever passed
  \<^verbatim>\<open>isinstance(_, int)\<close>: an integer or a boolean. As a dictionary key
  \<^verbatim>\<open>True\<close> is the key \<^verbatim>\<open>1\<close> and \<^verbatim>\<open>False\<close> the key
  \<^verbatim>\<open>0\<close> (equal values with equal hashes), while \<^verbatim>\<open>str\<close> of a
  boolean is \<^verbatim>\<open>'True'\<close> or \<^verbatim>\<open>'False'\<close>.
\<close>

fun int_key :: "'f json \<Rightarrow> int" where
  "int_key (JInt k) = k"
| "int_key (JBool b) = (if b then 1 else 0)"
| "int_key _ = 0"

fun py_str :: "'f json \<Rightarrow> string" where
  "py_str (JInt k) = str_int k"
| "py_str (JBool b) = (if b then ''True'' else ''False'')"
| "py_str _ = []"

definition get_symbol_kind_name :: "'f json \<Rightarrow> string" where
  "get_symbol_kind_name kind_id =
     (case map_of kinds (int_key kind_id) of Some n \<Rightarrow> n | None \<Rightarrow> py_str kind_id)"

subsection \<open>The normalizer \<^verbatim>\<open>transform_symbol_result\<close>\<close>

text \<open>
  The function mutates its argument in five steps and returns it. Each step is a function
  from the item to the item after the step, or to the exception the step raises; a step
  assigns to the item as its last action, so a step that raises leaves the item as it found
  it.
\<close>

text \<open>Step 1: restore \<^verbatim>\<open>name\<close> from \<^verbatim>\<open>name_path\<close> if missing.\<close>

definition strip_index :: "string \<Rightarrow> string" where
  "strip_index last_part =
     (if CHR ''['' \<in> set last_part \<and> endswith last_part CHR '']''
      then re_sub_index_suffix last_part else last_part)"

fun py_split_last :: "'f json \<Rightarrow> error + string" where
  "py_split_last (JStr s) = Inr (last (split_on CHR ''/'' s))"
| "py_split_last _ = Inl AttributeError"

definition restore_name :: "'f json \<Rightarrow> error + 'f json" where
  "restore_name item =
     bnd (py_in ''name'' item) (\<lambda>has_name.
       if has_name then Inr item
       else bnd (py_in ''name_path'' item) (\<lambda>has_name_path.
         if \<not> has_name_path then Inr item
         else bnd (py_getitem item ''name_path'') (\<lambda>name_path.
           bnd (py_split_last name_path) (\<lambda>last_part.
             py_setitem item ''name'' (JStr (strip_index last_part))))))"

text \<open>Step 2: transform \<^verbatim>\<open>kind\<close> to a string.\<close>

definition transform_kind :: "'f json \<Rightarrow> error + 'f json" where
  "transform_kind item =
     bnd (py_in ''kind'' item) (\<lambda>has_kind.
       if \<not> has_kind then Inr item
       else bnd (py_getitem item ''kind'') (\<lambda>kind.
         if isinstance_int kind
         then py_setitem item ''kind'' (JStr (lower (get_symbol_kind_name kind)))
         else Inr item))"

text \<open>
  Step 3: transform \<^verbatim>\<open>range\<close>. The \<^verbatim>\<open>elif\<close> belongs to the outer
  \<^verbatim>\<open>if\<close>: \<^verbatim>\<open>body_location\<close> is looked at only when \<^verbatim>\<open>range\<close> is
  absent or is not a dict.
\<close>

definition range_is_dict :: "'f json \<Rightarrow> error + bool" where
  "range_is_dict item =
     bnd (py_in ''range'' item) (\<lambda>has_range.
       if \<not> has_range then Inr False
       else bnd (py_getitem item ''range'') (\<lambda>r. Inr (isinstance_dict r)))"

definition body_location_is_dict :: "'f json \<Rightarrow> error + bool" where
  "body_location_is_dict item =
     bnd (py_in ''body_location'' item) (\<lambda>has_body.
       if \<not> has_body then Inr False
       else bnd (py_getitem item ''body_location'') (\<lambda>b. Inr (isinstance_dict b)))"

definition both_have_line :: "'f json \<Rightarrow> 'f json \<Rightarrow> error + bool" where
  "both_have_line start end =
     bnd (py_in ''line'' start) (\<lambda>in_start.
       if \<not> in_start then Inr False else py_in ''line'' end)"

definition transform_range :: "'f json \<Rightarrow> error + 'f json" where
  "transform_range item =
     bnd (range_is_dict item) (\<lambda>range_dict.
       if range_dict then
         bnd (py_getitem item ''range'') (\<lambda>r.
         bnd (py_get r ''start'' (JObj [])) (\<lambda>start.
         bnd (py_get r ''end'' (JObj [])) (\<lambda>end.
         bnd (both_have_line start end) (\<lambda>both.
           if both then
             bnd (py_getitem start ''line'') (\<lambda>start_line.
             bnd (py_getitem end ''line'') (\<lambda>end_line.
               py_setitem item ''range''
                 (JObj [(''start_line'', start_line), (''end_line'', end_line)])))
           else Inr item))))
       else
         bnd (body_location_is_dict item) (\<lambda>body_dict.
           if body_dict then
             bnd (py_getitem item ''body_location'') (\<lambda>b. py_setitem item ''range'' b)
           else Inr item))"

text \<open>Step 4: ensure the \<^verbatim>\<open>file\<close> key exists.\<close>

definition ensure_file :: "'f json \<Rightarrow> error + 'f json" where
  "ensure_file item =
     bnd (py_in ''relative_path'' item) (\<lambda>has_path.
       if has_path
       then bnd (py_getitem item ''relative_path'') (\<lambda>p. py_setitem item ''file'' p)
       else Inr item)"

text \<open>
  Step 5: guess \<^verbatim>\<open>language\<close> if missing. \<^verbatim>\<open>os.path.splitext\<close> raises
  \<^verbatim>\<open>TypeError\<close> on anything that is not a string.
\<close>

fun py_splitext_ext :: "'f json \<Rightarrow> error + string" where
  "py_splitext_ext (JStr p) = Inr (splitext_ext p)"
| "py_splitext_ext _ = Inl TypeError"

definition guess_language :: "'f json \<Rightarrow> error + 'f json" where
  "guess_language item =
     bnd (py_in ''language'' item) (\<lambda>has_language.
       if has_language then Inr item
       else bnd (py_in ''file'' item) (\<lambda>has_file.
         if \<not> has_file then Inr item
         else bnd (py_getitem item ''file'') (\<lambda>file.
           bnd (py_splitext_ext file) (\<lambda>ext.
             if ext = ''.py'' then py_setitem item ''language'' (JStr ''python'')
             else if ext = ''.ts'' then py_setitem item ''language'' (JStr ''typescript'')
             else if ext = ''.js'' then py_setitem item ''language'' (JStr ''javascript'')
             else if ext = ''.java'' then py_setitem item ''language'' (JStr ''java'')
             else Inr item))))"

text \<open>
  The outcome of a call: the function returned the item, or it raised, and then the item
  is as the steps before the failing one left it.
\<close>

datatype 'f outcome = Returned "'f json" | Raised error "'f json"

fun item_after :: "'f outcome \<Rightarrow> 'f json" where
  "item_after (Returned item) = item"
| "item_after (Raised e item) = item"

fun run_steps :: "('f json \<Rightarrow> error + 'f json) list \<Rightarrow> 'f json \<Rightarrow> 'f outcome" where
  "run_steps [] item = Returned item"
| "run_steps (step # steps) item =
     (case step item of Inl e \<Rightarrow> Raised e item | Inr item' \<Rightarrow> run_steps steps item')"

definition transform_symbol_result :: "'f json \<Rightarrow> 'f outcome" where
  "transform_symbol_result item =
     run_steps [restore_name, transform_kind, transform_range, ensure_file, guess_language] item"

subsection \<open>The command-line pipeline of \<^verbatim>\<open>main_async\<close>\<close>

text \<open>
  The parsed arguments: the output format and one of the three queries.
  \<^verbatim>\<open>find-symbol\<close> carries \<^verbatim>\<open>--name\<close>, \<^verbatim>\<open>--language\<close> and
  \<^verbatim>\<open>--limit\<close> (the last two optional), \<^verbatim>\<open>file-overview\<close> carries
  \<^verbatim>\<open>--path\<close>, \<^verbatim>\<open>references\<close> carries \<^verbatim>\<open>--name\<close> and
  \<^verbatim>\<open>--path\<close>.
\<close>

datatype format = Text | Json

datatype query =
    FindSymbol string "string option" "int option"
  | FileOverview string
  | References string string

text \<open>The tool name and the arguments of the one tool call.\<close>

fun tool_call :: "query \<Rightarrow> string \<times> (string \<times> string) list" where
  "tool_call (FindSymbol name language limit) =
     (''find_symbol'', [(''name_path_pattern'', name)])"
| "tool_call (FileOverview path) =
     (''get_symbols_overview'', [(''relative_path'', path)])"
| "tool_call (References name path) =
     (''find_referencing_symbols'', [(''name_path'', name), (''relative_path'', path)])"

text \<open>The response of the tool: the error flag and the content blocks.\<close>

datatype content = TextContent string | OtherContent

record call_tool_result =
  isError :: bool
  content :: "content list"

text \<open>
  What the process writes: each \<^verbatim>\<open>print\<close> call is one event, on the output
  stream or on the error stream. The text of an exception is not modelled, so the line
  \<^verbatim>\<open>Error: {e}\<close> is kept as the exception itself.
\<close>

datatype stderr_line =
    Warning_non_json string
  | Error_exception error
  | Error_calling_tool string
  | Tool_text string

datatype event = Stdout string | Stderr stderr_line

record run =
  events :: "event list"
  exit_code :: nat

text \<open>
  The library functions the pipeline calls are parameters: \<^verbatim>\<open>json.loads\<close>
  (returning the value or raising), \<^verbatim>\<open>json.dumps(_, indent=2)\<close>, and
  \<^verbatim>\<open>format(value, spec)\<close>, which the f-strings of the text output call.
\<close>

record 'f builtins =
  loads :: "string \<Rightarrow> error + 'f json"
  dumps :: "'f json \<Rightarrow> string"
  format_value :: "'f json \<Rightarrow> string \<Rightarrow> error + string"

text \<open>
  Parse content: the loop over the content blocks. A block that is not text is passed
  over; a parsed list extends the output, a parsed dict is appended, any other parsed
  value is dropped; \<^verbatim>\<open>JSONDecodeError\<close> is caught and a warning printed; any
  other exception leaves the loop. The warnings printed so far come with the result.
\<close>

fun parse_content ::
  "'f builtins \<Rightarrow> content list \<Rightarrow> 'f json list \<Rightarrow> event list \<times> (error + 'f json list)" where
  "parse_content B [] output_data = ([], Inr output_data)"
| "parse_content B (OtherContent # rest) output_data = parse_content B rest output_data"
| "parse_content B (TextContent t # rest) output_data =
     (case loads B t of
        Inr (JList xs) \<Rightarrow> parse_content B rest (output_data @ xs)
      | Inr (JObj d) \<Rightarrow> parse_content B rest (output_data @ [JObj d])
      | Inr _ \<Rightarrow> parse_content B rest output_data
      | Inl JSONDecodeError \<Rightarrow>
          (case parse_content B rest output_data of
             (evs, r) \<Rightarrow> (Stderr (Warning_non_json t) # evs, r))
      | Inl e \<Rightarrow> ([], Inl e))"

text \<open>Transform data: the list comprehension stops at the first item that raises.\<close>

fun transform_all :: "'f json list \<Rightarrow> error + 'f json list" where
  "transform_all [] = Inr []"
| "transform_all (item # rest) =
     (case transform_symbol_result item of
        Raised e item' \<Rightarrow> Inl e
      | Returned item' \<Rightarrow> bnd (transform_all rest) (\<lambda>rest'. Inr (item' # rest')))"

text \<open>
  Filter by language: \<^verbatim>\<open>item.get("language", "").lower() == target_lang\<close>.
  Only a string has \<^verbatim>\<open>lower\<close>.
\<close>

fun py_lower :: "'f json \<Rightarrow> error + string" where
  "py_lower (JStr s) = Inr (lower s)"
| "py_lower _ = Inl AttributeError"

fun filter_language :: "string \<Rightarrow> 'f json list \<Rightarrow> error + 'f json list" where
  "filter_language target_lang [] = Inr []"
| "filter_language target_lang (item # rest) =
     bnd (py_get item ''language'' (JStr [])) (\<lambda>v.
     bnd (py_lower v) (\<lambda>l.
     bnd (filter_language target_lang rest) (\<lambda>rest'.
       Inr (if l = target_lang then item # rest' else rest'))))"

text \<open>
  The slice \<^verbatim>\<open>xs[:n]\<close>: the first \<open>n\<close> elements, and for a negative \<open>n\<close>
  all but the last \<open>-n\<close>.
\<close>

definition slice_upto :: "int \<Rightarrow> 'a list \<Rightarrow> 'a list" where
  "slice_upto n xs = (if 0 \<le> n then take (nat n) xs else take (length xs - nat (- n)) xs)"

text \<open>
  The guards are truth tests: \<^verbatim>\<open>args.language\<close> is false for an absent option and
  for the empty string, \<^verbatim>\<open>args.limit\<close> for an absent option and for zero.
\<close>

fun apply_language :: "query \<Rightarrow> 'f json list \<Rightarrow> error + 'f json list" where
  "apply_language (FindSymbol name (Some language) limit) output_data =
     (if language \<noteq> [] then filter_language (lower language) output_data else Inr output_data)"
| "apply_language q output_data = Inr output_data"

fun apply_limit :: "query \<Rightarrow> 'a list \<Rightarrow> 'a list" where
  "apply_limit (FindSymbol name language (Some limit)) output_data =
     (if limit \<noteq> 0 then slice_upto limit output_data else output_data)"
| "apply_limit q output_data = output_data"

text \<open>The result list: transformed, then filtered, then limited.\<close>

definition result_list :: "query \<Rightarrow> 'f json list \<Rightarrow> error + 'f json list" where
  "result_list q output_data =
     bnd (transform_all output_data) (\<lambda>transformed.
     bnd (apply_language q transformed) (\<lambda>filtered.
       Inr (apply_limit q filtered)))"

text \<open>The text rows of the three queries.\<close>

definition start_line_of :: "'f json \<Rightarrow> error + 'f json" where
  "start_line_of item =
     bnd (py_get item ''range'' (JObj [])) (\<lambda>r. py_get r ''start_line'' (JStr ''?''))"

definition find_symbol_row :: "'f builtins \<Rightarrow> 'f json \<Rightarrow> error + string list" where
  "find_symbol_row B item =
     bnd (py_get item ''name'' (JStr ''?'')) (\<lambda>name.
     bnd (py_get item ''kind'' (JStr ''?'')) (\<lambda>kind.
     bnd (py_get item ''file'' (JStr ''?'')) (\<lambda>file.
     bnd (start_line_of item) (\<lambda>start_line.
     bnd (format_value B name ''<30'') (\<lambda>c1.
     bnd (format_value B kind ''<15'') (\<lambda>c2.
     bnd (format_value B file []) (\<lambda>c3.
     bnd (format_value B start_line []) (\<lambda>c4.
       Inr [c1 @ '' '' @ c2 @ '' '' @ c3 @ '':'' @ c4]))))))))"

definition file_overview_row :: "'f builtins \<Rightarrow> 'f json \<Rightarrow> error + string list" where
  "file_overview_row B item =
     bnd (py_get item ''name'' (JStr ''?'')) (\<lambda>name.
     bnd (py_get item ''kind'' (JStr ''?'')) (\<lambda>kind.
     bnd (start_line_of item) (\<lambda>start_line.
     bnd (format_value B kind ''<15'') (\<lambda>c1.
     bnd (format_value B name ''<30'') (\<lambda>c2.
     bnd (format_value B start_line []) (\<lambda>c3.
       Inr [c1 @ '' '' @ c2 @ '' (Line '' @ c3 @ '')'']))))))"

text \<open>\<^verbatim>\<open>str.strip()\<close>: the white space of Python among the 8-bit characters.\<close>

definition is_space :: "char \<Rightarrow> bool" where
  "is_space c =
     (let n = (of_char c :: nat) in (9 \<le> n \<and> n \<le> 13) \<or> (28 \<le> n \<and> n \<le> 32) \<or> n = 133 \<or> n = 160)"

definition strip :: "string \<Rightarrow> string" where
  "strip s = rev (dropWhile is_space (rev (dropWhile is_space s)))"

fun py_strip :: "'f json \<Rightarrow> error + string" where
  "py_strip (JStr s) = Inr (strip s)"
| "py_strip _ = Inl AttributeError"

definition references_row :: "'f builtins \<Rightarrow> 'f json \<Rightarrow> error + string list" where
  "references_row B item =
     bnd (py_get item ''file'' (JStr ''?'')) (\<lambda>file.
     bnd (start_line_of item) (\<lambda>start_line.
     bnd (py_get item ''content_around_reference'' (JStr [])) (\<lambda>raw.
     bnd (py_strip raw) (\<lambda>snippet.
     bnd (format_value B file []) (\<lambda>c1.
     bnd (format_value B start_line []) (\<lambda>c2.
       Inr ((''Referenced in '' @ c1 @ '':'' @ c2) #
            (if snippet \<noteq> [] then [''  Code:'' @ [CHR 0x0A] @ snippet @ [CHR 0x0A]] else []))))))))"

text \<open>
  The loop over the items: the fields of an item are read and formatted, then its lines
  are printed; the lines printed before an exception stay printed.
\<close>

fun print_rows ::
  "('f json \<Rightarrow> error + string list) \<Rightarrow> 'f json list \<Rightarrow> event list \<times> error option" where
  "print_rows row [] = ([], None)"
| "print_rows row (item # rest) =
     (case row item of
        Inl e \<Rightarrow> ([], Some e)
      | Inr lines \<Rightarrow>
          (case print_rows row rest of (evs, r) \<Rightarrow> (map Stdout lines @ evs, r)))"

fun text_output :: "'f builtins \<Rightarrow> query \<Rightarrow> 'f json list \<Rightarrow> event list \<times> error option" where
  "text_output B (FindSymbol name language limit) output_data =
     (case print_rows (find_symbol_row B) output_data of
        (evs, r) \<Rightarrow> ((if output_data = [] then [Stdout ''No symbols found.''] else []) @ evs, r))"
| "text_output B (FileOverview path) output_data =
     (case print_rows (file_overview_row B) output_data of
        (evs, r) \<Rightarrow>
          ((if output_data = [] then [Stdout ''No symbols found in file.''] else []) @ evs, r))"
| "text_output B (References name path) output_data =
     (case print_rows (references_row B) output_data of
        (evs, r) \<Rightarrow> ((if output_data = [] then [Stdout ''No references found.''] else []) @ evs, r))"

definition print_output :: "'f builtins \<Rightarrow> format \<Rightarrow> query \<Rightarrow> 'f json list \<Rightarrow> event list \<times> error option" where
  "print_output B fmt q output_data =
     (case fmt of
        Json \<Rightarrow> ([Stdout (dumps B (JObj [(''results'', JList output_data)]))], None)
      | Text \<Rightarrow> text_output B q output_data)"

text \<open>
  The body of \<^verbatim>\<open>main_async\<close> from the tool's response on (the launch of the
  server and the transport are outside the model). A response flagged as an error is
  printed to the error stream and the process exits with 1. Every exception raised later
  is caught by \<^verbatim>\<open>except Exception\<close>: the line \<^verbatim>\<open>Error: {e}\<close> goes to the
  error stream and the exit code is 1. Otherwise the process ends with exit code 0.
\<close>

definition fail_with :: "event list \<Rightarrow> error \<Rightarrow> run" where
  "fail_with evs e = \<lparr>events = evs @ [Stderr (Error_exception e)], exit_code = 1\<rparr>"

definition main_async :: "'f builtins \<Rightarrow> format \<Rightarrow> query \<Rightarrow> call_tool_result \<Rightarrow> run" where
  "main_async B fmt q result =
     (if isError result then
        \<lparr>events = Stderr (Error_calling_tool (fst (tool_call q))) #
                   concat (map (\<lambda>c. case c of TextContent t \<Rightarrow> [Stderr (Tool_text t)]
                                         | OtherContent \<Rightarrow> []) (content result)),
         exit_code = 1\<rparr>
      else
        (case parse_content B (content result) [] of
           (warnings, Inl e) \<Rightarrow> fail_with warnings e
         | (warnings, Inr output_data) \<Rightarrow>
             (case result_list q output_data of
                Inl e \<Rightarrow> fail_with warnings e
              | Inr final \<Rightarrow>
                  (case print_output B fmt q final of
                     (evs, Some e) \<Rightarrow> fail_with (warnings @ evs) e
                   | (evs, None) \<Rightarrow> \<lparr>events = warnings @ evs, exit_code = 0\<rparr>))))"

subsection \<open>\<^verbatim>\<open>SerenaClient.get_status\<close>\<close>

text \<open>
  The environment of the client: whether the import of the Serena library succeeded
  (\<^verbatim>\<open>SERENA_AVAILABLE\<close>), what constructing \<^verbatim>\<open>SerenaAgent(project=None)\<close>
  does, and what \<^verbatim>\<open>agent.serena_config.get_project(root)\<close> does: each of the two
  calls returns or raises an exception (a subclass of \<^verbatim>\<open>Exception\<close>); the project
  returned may be a value that tests false (\<open>None\<close>).
\<close>

record ('agent, 'project) environment =
  SERENA_AVAILABLE :: bool
  SerenaAgent :: "error + 'agent"
  get_project :: "'agent \<Rightarrow> string \<Rightarrow> error + 'project option"

record 'agent serena_client =
  project_root :: string
  agent :: "'agent option"

definition ensure_agent ::
  "('agent, 'project) environment \<Rightarrow> 'agent serena_client \<Rightarrow> error + 'agent serena_client" where
  "ensure_agent env self =
     (if \<not> SERENA_AVAILABLE env then Inl RuntimeError
      else if agent self = None then
        (case SerenaAgent env of
           Inl e \<Rightarrow> Inl RuntimeError
         | Inr a \<Rightarrow> Inr (self\<lparr>agent := Some a\<rparr>))
      else Inr self)"

text \<open>
  The body of the \<^verbatim>\<open>try\<close> block of \<^verbatim>\<open>get_status\<close>: the status and the client
  after it, or the exception. \<^verbatim>\<open>self.agent.serena_config\<close> on an agent that is
  \<^verbatim>\<open>None\<close> would raise \<^verbatim>\<open>AttributeError\<close>.
\<close>

definition status_try ::
  "('agent, 'project) environment \<Rightarrow> 'agent serena_client \<Rightarrow> (string \<times> 'f json) list \<Rightarrow>
     error + ((string \<times> 'f json) list \<times> 'agent serena_client)" where
  "status_try env self status =
     bnd (ensure_agent env self) (\<lambda>self'.
       case agent self' of
         None \<Rightarrow> Inl AttributeError
       | Some a \<Rightarrow>
           bnd (get_project env a (project_root self')) (\<lambda>project.
             case project of
               Some p \<Rightarrow>
                 Inr (dict_set (dict_set status ''project_detected'' (JBool True))
                        ''index_state'' (JStr ''configured''), self')
             | None \<Rightarrow> Inr (status, self')))"

text \<open>
  \<^verbatim>\<open>get_status\<close>: the result is the returned status and the client after the call, or
  the exception that leaves the method. When the \<^verbatim>\<open>try\<close> block raises,
  \<^verbatim>\<open>except Exception: pass\<close> keeps the status as it was before the block (the block
  assigns to it only after its last call that can raise); the client keeps the agent only
  if its construction succeeded.
\<close>

definition get_status ::
  "('agent, 'project) environment \<Rightarrow> 'agent serena_client \<Rightarrow>
     error + ((string \<times> 'f json) list \<times> 'agent serena_client)" where
  "get_status env self =
     (let status = [(''serena_available'', JBool (SERENA_AVAILABLE env)),
                    (''project_detected'', JBool False),
                    (''index_state'', JStr ''unknown'')]
      in if SERENA_AVAILABLE env then
           (case status_try env self status of
              Inl e \<Rightarrow>
                Inr (status, (case ensure_agent env self of Inl e' \<Rightarrow> self | Inr self' \<Rightarrow> self'))
            | Inr r \<Rightarrow> Inr r)
         else Inr (status, self))"

subsection \<open>Vocabulary of the statements\<close>

text \<open>The value of a field of a record; a value that is not a dict has no fields.\<close>

fun field :: "'f json \<Rightarrow> string \<Rightarrow> 'f json option" where
  "field (JObj d) key = map_of d key"
| "field _ key = None"

text \<open>
  The agent and the project are obtained: the library is available, the agent exists or
  its construction succeeds, and the project lookup returns a project that tests true.
\<close>

definition project_obtained ::
  "('agent, 'project) environment \<Rightarrow> 'agent serena_client \<Rightarrow> bool" where
  "project_obtained env self =
     (SERENA_AVAILABLE env \<and>
      (case ensure_agent env self of
         Inl e \<Rightarrow> False
       | Inr self' \<Rightarrow>
           (case agent self' of
              None \<Rightarrow> False
            | Some a \<Rightarrow>
                (case get_project env a (project_root self') of
                   Inr (Some p) \<Rightarrow> True
                 | _ \<Rightarrow> False))))"

text \<open>
  The last \<^verbatim>\<open>/\<close>-separated segment of a string: what follows its last slash, the
  whole string when it has none.
\<close>

definition last_segment :: "string \<Rightarrow> string" where
  "last_segment s = rev (takeWhile (\<lambda>c. c \<noteq> CHR ''/'') (rev s))"

text \<open>
  A segment ends in an index suffix: it is \<open>p\<close> followed by an opening bracket, one
  digit or more, and a closing bracket.
\<close>

definition indexed :: "string \<Rightarrow> string \<Rightarrow> string \<Rightarrow> bool" where
  "indexed seg p ds = (seg = p @ ''['' @ ds @ '']'' \<and> ds \<noteq> [] \<and> (\<forall>c \<in> set ds. is_digit c))"

text \<open>The segment with a trailing \<^verbatim>\<open>[<digits>]\<close> suffix removed when present.\<close>

definition strip_trailing_index :: "string \<Rightarrow> string" where
  "strip_trailing_index seg =
     (case rev seg of
        [] \<Rightarrow> seg
      | c # r \<Rightarrow>
          if c = CHR '']'' \<and> takeWhile is_digit r \<noteq> [] then
            (case dropWhile is_digit r of
               [] \<Rightarrow> seg
             | b # p \<Rightarrow> if b = CHR ''['' then rev p else seg)
          else seg)"

text \<open>
  The first step of the normalizer does not raise on a record: the record has a
  \<^verbatim>\<open>name\<close>, or no \<^verbatim>\<open>name_path\<close>, or a \<^verbatim>\<open>name_path\<close> that is a
  string.
\<close>

definition name_restorable :: "'f json \<Rightarrow> bool" where
  "name_restorable item =
     (case field item ''name'' of
        Some v \<Rightarrow> True
      | None \<Rightarrow>
          (case field item ''name_path'' of
             None \<Rightarrow> True
           | Some (JStr s) \<Rightarrow> True
           | Some _ \<Rightarrow> False))"

text \<open>
  A \<^verbatim>\<open>range\<close> dict without the pair of lines: its \<^verbatim>\<open>start\<close> is absent or
  a dict without \<^verbatim>\<open>line\<close>, or its \<^verbatim>\<open>start\<close> is a dict and its
  \<^verbatim>\<open>end\<close> is absent or a dict without \<^verbatim>\<open>line\<close>.
\<close>

definition lacks_line_pair :: "(string \<times> 'f json) list \<Rightarrow> bool" where
  "lacks_line_pair r =
     (case map_of r ''start'' of
        None \<Rightarrow> True
      | Some (JObj st) \<Rightarrow>
          map_of st ''line'' = None \<or>
          (case map_of r ''end'' of
             None \<Rightarrow> True
           | Some (JObj en) \<Rightarrow> map_of en ''line'' = None
           | Some _ \<Rightarrow> False)
      | Some _ \<Rightarrow> False)"

text \<open>
  A record has the language \<open>L\<close>: its \<^verbatim>\<open>language\<close> field is a string equal to
  \<open>L\<close> under case-insensitive comparison.
\<close>

definition has_language :: "string \<Rightarrow> 'f json \<Rightarrow> bool" where
  "has_language L item =
     (case field item ''language'' of
        Some (JStr s) \<Rightarrow> lower s = lower L
      | _ \<Rightarrow> False)"

text \<open>
  The language filter can read an item: the item is a dict whose \<^verbatim>\<open>language\<close> is
  absent or a string.
\<close>

definition language_readable :: "'f json \<Rightarrow> bool" where
  "language_readable item =
     (case item of
        JObj d \<Rightarrow>
          (case map_of d ''language'' of
             None \<Rightarrow> True
           | Some (JStr s) \<Rightarrow> True
           | Some _ \<Rightarrow> False)
      | _ \<Rightarrow> False)"

text \<open>
  What a content block contributes to the parsed data: a text block that is a JSON list
  contributes its elements, one that is a JSON object contributes that object, and every
  other block (not text, another JSON value, or text on which \<^verbatim>\<open>json.loads\<close>
  raises) contributes nothing.
\<close>

definition block_records :: "'f builtins \<Rightarrow> content \<Rightarrow> 'f json list" where
  "block_records B c =
     (case c of
        OtherContent \<Rightarrow> []
      | TextContent t \<Rightarrow>
          (case loads B t of
             Inr (JList xs) \<Rightarrow> xs
           | Inr (JObj d) \<Rightarrow> [JObj d]
           | _ \<Rightarrow> []))"

text \<open>The warning of a block: one line for a text block that raises \<^verbatim>\<open>JSONDecodeError\<close>.\<close>

definition block_warnings :: "'f builtins \<Rightarrow> content \<Rightarrow> event list" where
  "block_warnings B c =
     (case c of
        OtherContent \<Rightarrow> []
      | TextContent t \<Rightarrow>
          (if loads B t = Inl JSONDecodeError then [Stderr (Warning_non_json t)] else []))"

text \<open>
  A block does not stop the parse loop: \<^verbatim>\<open>json.loads\<close> returns on its text or raises
  \<^verbatim>\<open>JSONDecodeError\<close>.
\<close>

definition block_parses :: "'f builtins \<Rightarrow> content \<Rightarrow> bool" where
  "block_parses B c =
     (case c of
        OtherContent \<Rightarrow> True
      | TextContent t \<Rightarrow>
          (case loads B t of Inr v \<Rightarrow> True | Inl e \<Rightarrow> e = JSONDecodeError))"

section \<open>Properties\<close>

subsection \<open>Strings\<close>

text \<open>
  The last element of \<^verbatim>\<open>split("/")\<close> is the last segment, and the guarded
  \<^verbatim>\<open>re.sub\<close> removes exactly a trailing index suffix.
\<close>

lemma lower_latin1: "lower [CHR 0xC7, CHR 0xD7, CHR ''A'', CHR ''z''] = [CHR 0xE7, CHR 0xD7, CHR ''a'', CHR ''z'']"
  by code_simp

lemma bracket_not_digit [simp]: "\<not> is_digit CHR ''[''" "\<not> is_digit CHR '']''"
  by (simp_all add: is_digit_def)

lemma split_on_not_Nil [simp]: "split_on sep s \<noteq> []"
  by (induction s) (auto split: list.splits)

lemma split_on_no_sep: "sep \<notin> set s \<Longrightarrow> split_on sep s = [s]"
  by (induction s) auto

lemma length_split_on:
  "length (split_on sep s) = Suc (length (filter (\<lambda>c. c = sep) s))"
  by (induction s) (auto split: list.splits)

lemma last_split_on: "last (split_on sep s) = rev (takeWhile (\<lambda>c. c \<noteq> sep) (rev s))"
proof (induction s)
  case Nil
  show ?case by simp
next
  case (Cons c cs)
  show ?case
  proof (cases "c = sep")
    case True
    with Cons show ?thesis by (simp add: takeWhile_append)
  next
    case False
    show ?thesis
    proof (cases "sep \<in> set cs")
      case True
      obtain p ps where ps: "split_on sep cs = p # ps"
        by (cases "split_on sep cs") auto
      from True have "filter (\<lambda>c. c = sep) cs \<noteq> []"
        by (auto simp: filter_empty_conv)
      then have "2 \<le> length (split_on sep cs)"
        by (cases "filter (\<lambda>c. c = sep) cs") (simp_all add: length_split_on)
      with ps have "ps \<noteq> []" by auto
      with ps False have "last (split_on sep (c # cs)) = last (split_on sep cs)" by simp
      also have "\<dots> = rev (takeWhile (\<lambda>c. c \<noteq> sep) (rev cs))" by (rule Cons.IH)
      also from True have "\<dots> = rev (takeWhile (\<lambda>c. c \<noteq> sep) (rev (c # cs)))"
        by (auto simp: takeWhile_append)
      finally show ?thesis .
    next
      case F2: False
      with False show ?thesis by (simp add: split_on_no_sep takeWhile_append)
    qed
  qed
qed

lemma match_index_suffix_exact:
  assumes "ds \<noteq> []" and "\<forall>c \<in> set ds. is_digit c"
  shows "match_index_suffix (CHR ''['' # ds @ '']'') = Some (length ds + 2)"
  using assms by (simp add: match_index_suffix_def Let_def takeWhile_append dropWhile_append)

lemma match_index_suffix_inner:
  assumes "match_index_suffix (c # p @ CHR ''['' # rest) = Some n"
  shows False
proof -
  from assms have c: "c = CHR ''[''"
    by (auto simp: match_index_suffix_def split: if_splits)
  let ?r = "p @ CHR ''['' # rest"
  from assms c obtain after where dw: "dropWhile is_digit ?r = CHR '']'' # after"
    and after: "after = [] \<or> after = [CHR 0x0A]"
    by (auto simp: match_index_suffix_def Let_def split: if_splits list.splits)
  have "dropWhile is_digit ?r = dropWhile is_digit p @ CHR ''['' # rest"
    by (simp add: dropWhile_append3)
  with dw have eq: "dropWhile is_digit p @ CHR ''['' # rest = CHR '']'' # after" by simp
  show False
  proof (cases "dropWhile is_digit p")
    case Nil
    with eq show False by simp
  next
    case (Cons b q)
    with eq have "after = q @ CHR ''['' # rest" by simp
    with after show False by (cases q) auto
  qed
qed

lemma re_sub_strips:
  assumes "ds \<noteq> []" and "\<forall>c \<in> set ds. is_digit c"
  shows "re_sub_index_suffix (p @ CHR ''['' # ds @ '']'') = p"
proof (induction p)
  case Nil
  from assms show ?case by (simp add: match_index_suffix_exact)
next
  case (Cons c p)
  have "match_index_suffix (c # p @ CHR ''['' # ds @ '']'') = None"
    using match_index_suffix_inner [of c p "ds @ '']''"] by (cases "match_index_suffix (c # p @ CHR ''['' # ds @ '']'')") auto
  with Cons show ?case by simp
qed

lemma match_index_suffix_form:
  assumes "match_index_suffix s = Some n" and "endswith s CHR '']''"
  shows "\<exists>ds. indexed s [] ds"
proof -
  from assms(1) obtain rest where s: "s = CHR ''['' # rest"
    by (cases s) (auto simp: match_index_suffix_def split: if_splits)
  from assms(1) s obtain after where dw: "dropWhile is_digit rest = CHR '']'' # after"
    and tw: "takeWhile is_digit rest \<noteq> []"
    and after: "after = [] \<or> after = [CHR 0x0A]"
    by (auto simp: match_index_suffix_def Let_def split: if_splits list.splits)
  have rest: "rest = takeWhile is_digit rest @ CHR '']'' # after"
    using takeWhile_dropWhile_id [of is_digit rest] dw by simp
  have "after = []"
  proof (rule ccontr)
    assume "after \<noteq> []"
    with after have a: "after = [CHR 0x0A]" by simp
    from rest a have "rest = (takeWhile is_digit rest @ [CHR '']'']) @ [CHR 0x0A]" by simp
    then have "last rest = CHR 0x0A" by (rule ssubst) (simp only: last_snoc)
    moreover from rest have "rest \<noteq> []" by (cases rest) auto
    ultimately have "last s = CHR 0x0A" using s by simp
    with assms(2) show False by (simp add: endswith_def)
  qed
  with rest s have "s = [] @ ''['' @ takeWhile is_digit rest @ '']''" by simp
  moreover have "\<forall>c \<in> set (takeWhile is_digit rest). is_digit c"
    by (auto dest: set_takeWhileD)
  ultimately show ?thesis using tw unfolding indexed_def by blast
qed

lemma re_sub_noop:
  assumes "endswith s CHR '']''" and "\<And>p ds. \<not> indexed s p ds"
  shows "re_sub_index_suffix s = s"
  using assms
proof (induction s)
  case Nil
  show ?case by simp
next
  case (Cons c cs)
  have none: "match_index_suffix (c # cs) = None"
  proof (cases "match_index_suffix (c # cs)")
    case (Some n)
    from match_index_suffix_form [OF Some Cons.prems(1)] Cons.prems(2) show ?thesis by blast
  qed simp
  show ?case
  proof (cases "cs = []")
    case True
    with none show ?thesis by simp
  next
    case False
    with Cons.prems(1) have e: "endswith cs CHR '']''" by (simp add: endswith_def)
    have "\<not> indexed cs p ds" for p ds
    proof
      assume "indexed cs p ds"
      then have "indexed (c # cs) (c # p) ds" by (simp add: indexed_def)
      with Cons.prems(2) show False by blast
    qed
    with Cons.IH e have "re_sub_index_suffix cs = cs" by blast
    with none show ?thesis by simp
  qed
qed

lemma strip_trailing_index_indexed:
  assumes "indexed seg p ds"
  shows "strip_trailing_index seg = p"
  using assms
  by (auto simp: indexed_def strip_trailing_index_def takeWhile_append dropWhile_append)

lemma strip_trailing_index_other:
  assumes "\<And>p ds. \<not> indexed seg p ds"
  shows "strip_trailing_index seg = seg"
proof (rule ccontr)
  assume neq: "strip_trailing_index seg \<noteq> seg"
  then obtain r where r: "rev seg = CHR '']'' # r" and tw: "takeWhile is_digit r \<noteq> []"
    by (auto simp: strip_trailing_index_def split: list.splits if_splits)
  from neq r tw obtain p where dw: "dropWhile is_digit r = CHR ''['' # p"
    by (auto simp: strip_trailing_index_def split: list.splits if_splits)
  have "r = takeWhile is_digit r @ CHR ''['' # p"
    using takeWhile_dropWhile_id [of is_digit r] dw by simp
  with r have "rev seg = CHR '']'' # takeWhile is_digit r @ CHR ''['' # p" by simp
  then have "seg = rev (CHR '']'' # takeWhile is_digit r @ CHR ''['' # p)"
    by (metis rev_rev_ident)
  then have "seg = rev p @ ''['' @ rev (takeWhile is_digit r) @ '']''" by simp
  moreover have "\<forall>c \<in> set (rev (takeWhile is_digit r)). is_digit c"
    by (auto dest: set_takeWhileD)
  ultimately have "indexed seg (rev p) (rev (takeWhile is_digit r))"
    using tw by (simp add: indexed_def)
  with assms show False by blast
qed

lemma strip_index_spec: "strip_index seg = strip_trailing_index seg"
proof (cases "\<exists>p ds. indexed seg p ds")
  case True
  then obtain p ds where i: "indexed seg p ds" by blast
  then have "CHR ''['' \<in> set seg" "endswith seg CHR '']''"
    by (auto simp: indexed_def endswith_def)
  moreover from i have "re_sub_index_suffix seg = p"
    using re_sub_strips [of ds p] by (simp add: indexed_def)
  ultimately show ?thesis using strip_trailing_index_indexed [OF i]
    by (simp add: strip_index_def)
next
  case False
  then have n: "\<And>p ds. \<not> indexed seg p ds" by blast
  show ?thesis
    using re_sub_noop [OF _ n] strip_trailing_index_other [OF n]
    by (auto simp: strip_index_def)
qed

lemma last_segment_after_slash:
  "CHR ''/'' \<notin> set seg \<Longrightarrow> last_segment (pre @ ''/'' @ seg) = seg"
  by (simp add: last_segment_def takeWhile_append)

lemma last_segment_no_slash:
  assumes "CHR ''/'' \<notin> set s"
  shows "last_segment s = s"
proof -
  from assms have "takeWhile (\<lambda>c. c \<noteq> CHR ''/'') (rev s) = rev s" by auto
  then show ?thesis unfolding last_segment_def by (simp only: rev_rev_ident)
qed

subsection \<open>The steps of the normalizer\<close>

text \<open>
  Each step returns the item unchanged or assigns to one key of it; every other field is
  kept.
\<close>

lemma map_of_dict_set: "map_of (dict_set d k v) k' = (if k' = k then Some v else map_of d k')"
  by (induction d) auto

lemma dict_set_same: "map_of d k = Some v \<Longrightarrow> dict_set d k v = d"
  by (induction d) (auto split: if_splits)

lemma field_setitem:
  "py_setitem x k v = Inr y \<Longrightarrow> field y k' = (if k' = k then Some v else field x k')"
  by (cases x) (auto simp: map_of_dict_set)

lemma setitem_is_dict: "py_setitem x k v = Inr y \<Longrightarrow> \<exists>d d'. x = JObj d \<and> y = JObj d'"
  by (cases x) auto

lemma restore_name_shape:
  "restore_name x = Inr y \<Longrightarrow> y = x \<or> (\<exists>v. py_setitem x ''name'' v = Inr y)"
  by (auto simp: restore_name_def bnd_def split: sum.splits if_splits)

lemma transform_kind_shape:
  "transform_kind x = Inr y \<Longrightarrow> y = x \<or> (\<exists>v. py_setitem x ''kind'' v = Inr y)"
  by (auto simp: transform_kind_def bnd_def split: sum.splits if_splits)

lemma transform_range_shape:
  "transform_range x = Inr y \<Longrightarrow> y = x \<or> (\<exists>v. py_setitem x ''range'' v = Inr y)"
  by (auto simp: transform_range_def bnd_def split: sum.splits if_splits)

lemma ensure_file_shape:
  "ensure_file x = Inr y \<Longrightarrow> y = x \<or> (\<exists>v. py_setitem x ''file'' v = Inr y)"
  by (auto simp: ensure_file_def bnd_def split: sum.splits if_splits)

lemma guess_language_shape:
  "guess_language x = Inr y \<Longrightarrow> y = x \<or> (\<exists>v. py_setitem x ''language'' v = Inr y)"
  by (auto simp: guess_language_def bnd_def split: sum.splits if_splits)

lemma shape_frame:
  assumes "y = x \<or> (\<exists>v. py_setitem x key v = Inr y)" and "k \<noteq> key"
  shows "field y k = field x k"
  using assms by (auto simp: field_setitem)

lemmas restore_name_frame = shape_frame [OF restore_name_shape]

lemmas transform_kind_frame = shape_frame [OF transform_kind_shape]

lemmas transform_range_frame = shape_frame [OF transform_range_shape]

lemmas ensure_file_frame = shape_frame [OF ensure_file_shape]

lemmas guess_language_frame = shape_frame [OF guess_language_shape]

lemma run_steps_field:
  assumes "\<And>f x y. f \<in> set fs \<Longrightarrow> f x = Inr y \<Longrightarrow> field y k = field x k"
  shows "field (item_after (run_steps fs x)) k = field x k"
  using assms
proof (induction fs arbitrary: x)
  case Nil
  show ?case by simp
next
  case (Cons f fs)
  show ?case
  proof (cases "f x")
    case (Inl e)
    then show ?thesis by simp
  next
    case (Inr y)
    have "field (item_after (run_steps fs y)) k = field y k"
    proof (rule Cons.IH)
      fix g and x' y' :: "'a json"
      assume "g \<in> set fs" and "g x' = Inr y'"
      then show "field y' k = field x' k" using Cons.prems [of g x' y'] by simp
    qed
    moreover have "field y k = field x k" using Cons.prems [of f x y] Inr by simp
    ultimately show ?thesis using Inr by simp
  qed
qed

lemma after_name_field:
  assumes "k \<noteq> ''kind''" "k \<noteq> ''range''" "k \<noteq> ''file''" "k \<noteq> ''language''"
  shows "field (item_after (run_steps [transform_kind, transform_range, ensure_file, guess_language] x)) k
         = field x k"
proof (rule run_steps_field)
  fix f and x y :: "'a json"
  assume "f \<in> set [transform_kind, transform_range, ensure_file, guess_language]" and "f x = Inr y"
  with assms show "field y k = field x k"
    by (auto simp: transform_kind_frame transform_range_frame ensure_file_frame guess_language_frame)
qed

lemma transform_after_name:
  "restore_name x = Inr y \<Longrightarrow>
     transform_symbol_result x
       = run_steps [transform_kind, transform_range, ensure_file, guess_language] y"
  by (simp add: transform_symbol_result_def)

lemma transform_name_raises:
  "restore_name x = Inl e \<Longrightarrow> transform_symbol_result x = Raised e x"
  by (simp add: transform_symbol_result_def)

lemma restore_name_sets:
  assumes "field item ''name'' = None" and "field item ''name_path'' = Some (JStr s)"
  shows "\<exists>y. restore_name item = Inr y
           \<and> field y ''name'' = Some (JStr (strip_index (last (split_on CHR ''/'' s))))"
proof -
  from assms(2) obtain d where d: "item = JObj d" by (cases item) auto
  with assms show ?thesis
    by (simp add: restore_name_def bnd_def map_of_dict_set)
qed

lemma restore_name_keeps:
  assumes "field item ''name'' = Some v"
  shows "restore_name item = Inr item"
proof -
  from assms obtain d where d: "item = JObj d" by (cases item) auto
  with assms show ?thesis by (simp add: restore_name_def bnd_def)
qed

lemmas normalizer_defs =
  transform_symbol_result_def restore_name_def transform_kind_def transform_range_def
  ensure_file_def guess_language_def range_is_dict_def body_location_is_dict_def
  both_have_line_def bnd_def

lemma run_steps_invariant:
  assumes "\<And>f x y. f \<in> set fs \<Longrightarrow> P x \<Longrightarrow> f x = Inr y \<Longrightarrow> P y" and "P x"
  shows "P (item_after (run_steps fs x))"
  using assms
proof (induction fs arbitrary: x)
  case Nil
  then show ?case by simp
next
  case (Cons f fs)
  show ?case
  proof (cases "f x")
    case (Inl e)
    with Cons.prems(2) show ?thesis by simp
  next
    case (Inr y)
    have y: "P y" using Cons.prems(1) [of f x y] Cons.prems(2) Inr by simp
    have "P (item_after (run_steps fs y))"
    proof (rule Cons.IH)
      fix g and x' y' :: "'a json"
      assume "g \<in> set fs" and "P x'" and "g x' = Inr y'"
      then show "P y'" using Cons.prems(1) [of g x' y'] by simp
    qed (rule y)
    with Inr show ?thesis by simp
  qed
qed

lemma step_shapes:
  assumes "f \<in> set [restore_name, transform_kind, transform_range, ensure_file, guess_language]"
    and "f x = Inr y"
  shows "y = x \<or> (\<exists>k v. py_setitem x k v = Inr y)"
  using assms restore_name_shape [of x y] transform_kind_shape [of x y]
    transform_range_shape [of x y] ensure_file_shape [of x y] guess_language_shape [of x y]
  by auto

lemma transform_not_dict:
  assumes "\<forall>d. x \<noteq> JObj d"
  shows "item_after (transform_symbol_result x) = x"
  unfolding transform_symbol_result_def
proof (rule run_steps_invariant [where P = "\<lambda>y. y = x"])
  fix f and x' y :: "'a json"
  assume f: "f \<in> set [restore_name, transform_kind, transform_range, ensure_file, guess_language]"
    and x': "x' = x" and y: "f x' = Inr y"
  from step_shapes [OF f y] x' assms show "y = x" by (auto dest: setitem_is_dict)
qed simp

lemma restore_name_ok:
  assumes "name_restorable item" and "item = JObj d"
  shows "\<exists>d'. restore_name item = Inr (JObj d')
           \<and> map_of d' ''range'' = map_of d ''range''
           \<and> map_of d' ''body_location'' = map_of d ''body_location''"
proof -
  from assms have "\<exists>y. restore_name item = Inr y"
    by (cases "map_of d ''name_path''"; cases "the (map_of d ''name_path'')")
       (auto simp: name_restorable_def restore_name_def bnd_def split: option.splits json.splits)
  then obtain y where y: "restore_name item = Inr y" by blast
  with assms(2) obtain d' where d': "y = JObj d'"
    using restore_name_shape [OF y] by (auto dest: setitem_is_dict)
  from y have "field y ''range'' = field item ''range''"
    and "field y ''body_location'' = field item ''body_location''"
    by (simp_all add: restore_name_frame)
  with y d' assms(2) show ?thesis by simp
qed

lemma transform_kind_ok:
  "\<exists>d'. transform_kind (JObj d) = Inr (JObj d')
        \<and> map_of d' ''range'' = map_of d ''range''
        \<and> map_of d' ''body_location'' = map_of d ''body_location''"
proof -
  have "\<exists>y. transform_kind (JObj d) = Inr y"
    by (cases "map_of d ''kind''") (auto simp: transform_kind_def bnd_def)
  then obtain y where y: "transform_kind (JObj d) = Inr y" by blast
  then obtain d' where d': "y = JObj d'"
    using transform_kind_shape [OF y] by (auto dest: setitem_is_dict)
  from y have "field y ''range'' = field (JObj d) ''range''"
    and "field y ''body_location'' = field (JObj d) ''body_location''"
    by (simp_all add: transform_kind_frame)
  with y d' show ?thesis by simp
qed

lemma after_range_field:
  "field (item_after (run_steps [ensure_file, guess_language] x)) ''range'' = field x ''range''"
proof (rule run_steps_field)
  fix f and x y :: "'a json"
  assume "f \<in> set [ensure_file, guess_language]" and "f x = Inr y"
  then show "field y ''range'' = field x ''range''"
    by (auto simp: ensure_file_frame guess_language_frame)
qed

lemma range_after_steps:
  assumes "name_restorable (JObj d)"
  shows "\<exists>d2. map_of d2 ''range'' = map_of d ''range''
             \<and> map_of d2 ''body_location'' = map_of d ''body_location''
             \<and> field (item_after (transform_symbol_result (JObj d))) ''range''
                 = (case transform_range (JObj d2) of
                      Inl e \<Rightarrow> map_of d ''range''
                    | Inr y \<Rightarrow> field y ''range'')"
proof -
  from restore_name_ok [OF assms refl] obtain d1 where
    1: "restore_name (JObj d) = Inr (JObj d1)" "map_of d1 ''range'' = map_of d ''range''"
       "map_of d1 ''body_location'' = map_of d ''body_location''" by blast
  from transform_kind_ok [of d1] obtain d2 where
    2: "transform_kind (JObj d1) = Inr (JObj d2)" "map_of d2 ''range'' = map_of d1 ''range''"
       "map_of d2 ''body_location'' = map_of d1 ''body_location''" by blast
  have "field (item_after (transform_symbol_result (JObj d))) ''range''
          = (case transform_range (JObj d2) of
               Inl e \<Rightarrow> map_of d ''range''
             | Inr y \<Rightarrow> field y ''range'')"
  proof (cases "transform_range (JObj d2)")
    case (Inl e)
    with 1 2 show ?thesis by (simp add: transform_symbol_result_def)
  next
    case (Inr y)
    with 1 2 have "transform_symbol_result (JObj d) = run_steps [ensure_file, guess_language] y"
      by (simp add: transform_symbol_result_def)
    with Inr show ?thesis by (simp only: after_range_field) simp
  qed
  with 1 2 show ?thesis by auto
qed

lemma transform_range_lines:
  assumes "map_of d ''range'' = Some (JObj r)"
    and "map_of r ''start'' = Some (JObj st)" and "map_of r ''end'' = Some (JObj en)"
    and "map_of st ''line'' = Some a" and "map_of en ''line'' = Some b"
  shows "transform_range (JObj d)
           = Inr (JObj (dict_set d ''range'' (JObj [(''start_line'', a), (''end_line'', b)])))"
  using assms
  by (simp add: transform_range_def range_is_dict_def both_have_line_def bnd_def)

lemma transform_range_body:
  assumes "\<forall>r. map_of d ''range'' \<noteq> Some (JObj r)"
    and "map_of d ''body_location'' = Some (JObj bl)"
  shows "transform_range (JObj d) = Inr (JObj (dict_set d ''range'' (JObj bl)))"
proof -
  from assms(1) have "range_is_dict (JObj d) = Inr False"
    by (cases "map_of d ''range''"; cases "the (map_of d ''range'')")
       (auto simp: range_is_dict_def bnd_def)
  with assms(2) show ?thesis
    by (simp add: transform_range_def body_location_is_dict_def bnd_def)
qed

lemma transform_range_neither:
  assumes "\<forall>r. map_of d ''range'' \<noteq> Some (JObj r)"
    and "\<forall>bl. map_of d ''body_location'' \<noteq> Some (JObj bl)"
  shows "transform_range (JObj d) = Inr (JObj d)"
proof -
  from assms(1) have "range_is_dict (JObj d) = Inr False"
    by (cases "map_of d ''range''"; cases "the (map_of d ''range'')")
       (auto simp: range_is_dict_def bnd_def)
  moreover from assms(2) have "body_location_is_dict (JObj d) = Inr False"
    by (cases "map_of d ''body_location''"; cases "the (map_of d ''body_location'')")
       (auto simp: body_location_is_dict_def bnd_def)
  ultimately show ?thesis by (simp add: transform_range_def bnd_def)
qed

lemma transform_range_lacking:
  assumes "map_of d ''range'' = Some (JObj r)" and "lacks_line_pair r"
  shows "transform_range (JObj d) = Inr (JObj d)"
  using assms
  by (auto simp: transform_range_def range_is_dict_def both_have_line_def bnd_def
      lacks_line_pair_def split: option.splits json.splits)

lemma step_keeps_no_range:
  assumes "f \<in> set [restore_name, transform_kind, transform_range, ensure_file, guess_language]"
    and "field x ''range'' = None \<and> field x ''body_location'' = None" and "f x = Inr y"
  shows "field y ''range'' = None \<and> field y ''body_location'' = None"
proof (cases "f = transform_range")
  case False
  with assms show ?thesis
    by (auto simp: restore_name_frame transform_kind_frame ensure_file_frame
        guess_language_frame)
next
  case True
  have "y = x"
  proof (cases "\<exists>d. x = JObj d")
    case True
    then obtain d where "x = JObj d" by blast
    with assms(2) have "transform_range x = Inr x"
      by (simp add: transform_range_neither)
    with assms(3) \<open>f = transform_range\<close> show ?thesis by simp
  next
    case False
    with step_shapes [OF assms(1,3)] show ?thesis by (auto dest: setitem_is_dict)
  qed
  with assms(2) show ?thesis by simp
qed

lemma transform_Returned_chain:
  "transform_symbol_result x = Returned y \<longleftrightarrow>
     (\<exists>x1 x2 x3 x4. restore_name x = Inr x1 \<and> transform_kind x1 = Inr x2
        \<and> transform_range x2 = Inr x3 \<and> ensure_file x3 = Inr x4 \<and> guess_language x4 = Inr y)"
  by (auto simp: transform_symbol_result_def split: sum.splits)

lemma shape_dict:
  assumes "y = x \<or> (\<exists>v. py_setitem x key v = Inr y)" and "x = JObj d"
  shows "\<exists>d'. y = JObj d'"
  using assms by (auto dest: setitem_is_dict)

lemma dict_set_fix: "dict_set d k v = d \<Longrightarrow> map_of d k = Some v"
  using map_of_dict_set [of d k v k] by simp

lemma restore_name_noop:
  "map_of d ''name'' \<noteq> None \<or> map_of d ''name_path'' = None \<Longrightarrow>
     restore_name (JObj d) = Inr (JObj d)"
  by (auto simp: restore_name_def bnd_def)

lemma restore_name_result:
  assumes "restore_name (JObj d) = Inr (JObj d')"
  shows "map_of d' ''name'' \<noteq> None \<or> map_of d' ''name_path'' = None"
proof (cases "map_of d ''name'' \<noteq> None \<or> map_of d ''name_path'' = None")
  case True
  with assms restore_name_noop [OF True] show ?thesis by simp
next
  case False
  with assms obtain v where "py_setitem (JObj d) ''name'' v = Inr (JObj d')"
    by (auto simp: restore_name_def bnd_def split: sum.splits)
  then show ?thesis by (auto simp: map_of_dict_set)
qed

lemma transform_kind_noop:
  "\<forall>v. map_of d ''kind'' = Some v \<longrightarrow> \<not> isinstance_int v \<Longrightarrow>
     transform_kind (JObj d) = Inr (JObj d)"
  by (cases "map_of d ''kind''") (auto simp: transform_kind_def bnd_def)

lemma transform_kind_result:
  assumes "transform_kind (JObj d) = Inr (JObj d')"
  shows "\<forall>v. map_of d' ''kind'' = Some v \<longrightarrow> \<not> isinstance_int v"
proof (cases "\<forall>v. map_of d ''kind'' = Some v \<longrightarrow> \<not> isinstance_int v")
  case True
  with assms transform_kind_noop [OF True] show ?thesis by simp
next
  case False
  then obtain v where v: "map_of d ''kind'' = Some v" "isinstance_int v" by blast
  with assms have "d' = dict_set d ''kind'' (JStr (lower (get_symbol_kind_name v)))"
    by (simp add: transform_kind_def bnd_def)
  then show ?thesis by (simp add: map_of_dict_set)
qed

lemma transform_range_cong:
  assumes "map_of d' ''range'' = map_of d ''range''"
    and "map_of d' ''body_location'' = map_of d ''body_location''"
    and "transform_range (JObj d) = Inr (JObj d)"
  shows "transform_range (JObj d') = Inr (JObj d')"
proof -
  have *: "dict_set d' ''range'' v = d'" if "dict_set d ''range'' v = d" for v
    using dict_set_fix [OF that] assms(1) by (simp add: dict_set_same)
  from assms show ?thesis
    unfolding transform_range_def range_is_dict_def body_location_is_dict_def
    by (auto simp: bnd_def * split: sum.splits if_splits option.splits)
qed

lemma transform_range_result:
  assumes "transform_range (JObj d) = Inr (JObj d')"
    and "(\<exists>r. map_of d ''range'' = Some (JObj r))
         \<or> (\<forall>bl. map_of d ''body_location'' = Some (JObj bl) \<longrightarrow> map_of bl ''start'' = None)"
  shows "transform_range (JObj d') = Inr (JObj d')"
proof (cases "\<exists>r. map_of d ''range'' = Some (JObj r)")
  case True
  then obtain r where r: "map_of d ''range'' = Some (JObj r)" by blast
  from r assms(1) have "d' = d \<or> (\<exists>a b. d' = dict_set d ''range''
        (JObj [(''start_line'', a), (''end_line'', b)]))"
    by (auto simp: transform_range_def range_is_dict_def bnd_def split: sum.splits if_splits)
  then show ?thesis
  proof
    assume "d' = d"
    with assms(1) show ?thesis by simp
  next
    assume "\<exists>a b. d' = dict_set d ''range'' (JObj [(''start_line'', a), (''end_line'', b)])"
    then obtain a b where "map_of d' ''range'' = Some (JObj [(''start_line'', a), (''end_line'', b)])"
      by (auto simp: map_of_dict_set)
    then show ?thesis by (rule transform_range_lacking) (simp add: lacks_line_pair_def)
  qed
next
  case False
  then have nr: "\<forall>r. map_of d ''range'' \<noteq> Some (JObj r)" by blast
  show ?thesis
  proof (cases "\<exists>bl. map_of d ''body_location'' = Some (JObj bl)")
    case True
    then obtain bl where bl: "map_of d ''body_location'' = Some (JObj bl)" by blast
    with assms(2) False have s: "map_of bl ''start'' = None" by blast
    from transform_range_body [OF nr bl] assms(1)
    have "map_of d' ''range'' = Some (JObj bl)" by (auto simp: map_of_dict_set)
    then show ?thesis by (rule transform_range_lacking) (simp add: lacks_line_pair_def s)
  next
    case False
    then have "\<forall>bl. map_of d ''body_location'' \<noteq> Some (JObj bl)" by blast
    from transform_range_neither [OF nr this] assms(1) show ?thesis by simp
  qed
qed

lemma ensure_file_cong:
  assumes "map_of d' ''relative_path'' = map_of d ''relative_path''"
    and "map_of d' ''file'' = map_of d ''file''"
    and "ensure_file (JObj d) = Inr (JObj d)"
  shows "ensure_file (JObj d') = Inr (JObj d')"
proof -
  have *: "dict_set d' ''file'' v = d'" if "dict_set d ''file'' v = d" for v
    using dict_set_fix [OF that] assms(2) by (simp add: dict_set_same)
  from assms show ?thesis
    unfolding ensure_file_def
    by (auto simp: bnd_def * split: sum.splits if_splits option.splits)
qed

lemma ensure_file_result:
  assumes "ensure_file (JObj d) = Inr (JObj d')"
  shows "ensure_file (JObj d') = Inr (JObj d')"
proof (cases "map_of d ''relative_path''")
  case None
  with assms show ?thesis by (simp add: ensure_file_def bnd_def)
next
  case (Some p)
  with assms have d': "d' = dict_set d ''file'' p" by (simp add: ensure_file_def bnd_def)
  then have "map_of d' ''relative_path'' = Some p" "map_of d' ''file'' = Some p"
    using Some by (simp_all add: map_of_dict_set)
  then show ?thesis by (simp add: ensure_file_def bnd_def dict_set_same)
qed

lemma guess_language_result:
  assumes "guess_language (JObj d) = Inr (JObj d')"
  shows "guess_language (JObj d') = Inr (JObj d')"
proof (cases "d' = d")
  case True
  with assms show ?thesis by simp
next
  case False
  with assms guess_language_shape [OF assms]
  obtain v where "d' = dict_set d ''language'' v" by auto
  then have "map_of d' ''language'' = Some v" by (simp add: map_of_dict_set)
  then show ?thesis by (simp add: guess_language_def bnd_def)
qed

lemma transform_fixed:
  assumes "restore_name x = Inr x" "transform_kind x = Inr x" "transform_range x = Inr x"
    "ensure_file x = Inr x" "guess_language x = Inr x"
  shows "transform_symbol_result x = Returned x"
  using assms by (simp add: transform_symbol_result_def)

text \<open>
  The kind of a record after normalization. An integer \<open>k\<close> becomes the lower-cased
  table entry for \<open>1 \<le> k \<le> 26\<close> (6 becomes \<^verbatim>\<open>method\<close>) and its decimal string
  otherwise; a kind that does not pass \<^verbatim>\<open>isinstance(_, int)\<close> is kept.
\<close>

lemma kind_codes: "{1..26::int} = set [1, 2, 3, 4, 5, 6, 7, 8, 9, 10, 11, 12, 13, 14, 15, 16,
    17, 18, 19, 20, 21, 22, 23, 24, 25, 26]"
proof -
  have "[1..26::int] = [1, 2, 3, 4, 5, 6, 7, 8, 9, 10, 11, 12, 13, 14, 15, 16,
    17, 18, 19, 20, 21, 22, 23, 24, 25, 26]" by code_simp
  with set_upto [of 1 26] show ?thesis by simp
qed

lemma map_of_kinds_outside:
  assumes "\<not> (1 \<le> k \<and> k \<le> 26)"
  shows "map_of kinds k = None"
proof -
  have "fst ` set kinds = {1..26}" unfolding kind_codes by (simp add: kinds_def)
  moreover from assms have "k \<notin> {1..26}" by simp
  ultimately show ?thesis by (simp add: map_of_eq_None_iff)
qed

lemma map_of_kinds_inside:
  assumes "1 \<le> k" and "k \<le> 26"
  shows "map_of kinds k = Some (map snd kinds ! nat (k - 1))"
proof -
  from assms have "k \<in> {1..26}" by simp
  then have "k \<in> set [1, 2, 3, 4, 5, 6, 7, 8, 9, 10, 11, 12, 13, 14, 15, 16,
    17, 18, 19, 20, 21, 22, 23, 24, 25, 26]" unfolding kind_codes .
  then show ?thesis by (auto simp: kinds_def)
qed

lemma char_lower_digit: "d < 10 \<Longrightarrow> char_lower (digit_char d) = digit_char d"
  by (simp add: char_lower_def digit_char_def)

lemma lower_str_nat: "lower (str_nat n) = str_nat n"
proof (induction n rule: str_nat.induct)
  case (1 n)
  show ?case
  proof (cases "n < 10")
    case True
    then show ?thesis by (subst (1 2) str_nat.simps) (simp add: lower_def char_lower_digit)
  next
    case False
    with 1 show ?thesis
      by (subst (1 2) str_nat.simps) (simp add: lower_def char_lower_digit)
  qed
qed

lemma lower_str_int: "lower (str_int k) = str_int k"
  using lower_str_nat by (simp add: str_int_def lower_def char_lower_def)

lemma after_kind_field:
  "field (item_after (run_steps [transform_range, ensure_file, guess_language] x)) ''kind''
     = field x ''kind''"
proof (rule run_steps_field)
  fix f and x y :: "'a json"
  assume "f \<in> set [transform_range, ensure_file, guess_language]" and "f x = Inr y"
  then show "field y ''kind'' = field x ''kind''"
    by (auto simp: transform_range_frame ensure_file_frame guess_language_frame)
qed

lemma kind_after_steps:
  assumes "name_restorable (JObj d)"
  shows "field (item_after (transform_symbol_result (JObj d))) ''kind''
           = (case map_of d ''kind'' of
                None \<Rightarrow> None
              | Some v \<Rightarrow>
                  if isinstance_int v then Some (JStr (lower (get_symbol_kind_name v)))
                  else Some v)"
proof -
  from restore_name_ok [OF assms refl] obtain d1 where
    1: "restore_name (JObj d) = Inr (JObj d1)" by blast
  have k1: "map_of d1 ''kind'' = map_of d ''kind''"
    using restore_name_frame [OF 1, of "''kind''"] by simp
  obtain d2 where 2: "transform_kind (JObj d1) = Inr (JObj d2)"
    using transform_kind_ok [of d1] by blast
  have k2: "map_of d2 ''kind'' = (case map_of d ''kind'' of
                None \<Rightarrow> None
              | Some v \<Rightarrow>
                  if isinstance_int v then Some (JStr (lower (get_symbol_kind_name v)))
                  else Some v)"
    using 2 k1 by (cases "map_of d ''kind''")
      (auto simp: transform_kind_def bnd_def map_of_dict_set split: if_splits)
  from 1 2 have "transform_symbol_result (JObj d)
      = run_steps [transform_range, ensure_file, guess_language] (JObj d2)"
    by (simp add: transform_symbol_result_def)
  then show ?thesis by (simp only: after_kind_field) (simp add: k2)
qed

lemma kind_of_integer:
  assumes "name_restorable item" and "field item ''kind'' = Some (JInt k)"
  shows "field (item_after (transform_symbol_result item)) ''kind''
           = Some (JStr (if 1 \<le> k \<and> k \<le> 26 then lower (map snd kinds ! nat (k - 1))
                         else str_int k))"
proof -
  from assms(2) obtain d where d: "item = JObj d" by (cases item) auto
  with assms kind_after_steps [of d] show ?thesis
    by (auto simp: get_symbol_kind_name_def map_of_kinds_inside map_of_kinds_outside
        lower_str_int)
qed

lemma kind_not_integer:
  assumes "name_restorable item" and "field item ''kind'' = Some v" and "\<not> isinstance_int v"
  shows "field (item_after (transform_symbol_result item)) ''kind'' = Some v"
proof -
  from assms(2) obtain d where d: "item = JObj d" by (cases item) auto
  with assms kind_after_steps [of d] show ?thesis by simp
qed

lemma kind_six: "lower (map snd kinds ! nat (6 - 1)) = ''method''"
  by code_simp

subsection \<open>The normalizer\<close>

text \<open>
  C1. For every raw record that contains a string \<^verbatim>\<open>name_path\<close> field and no
  \<^verbatim>\<open>name\<close> field, the normalizer sets \<^verbatim>\<open>name\<close> to the last
  \<^verbatim>\<open>/\<close>-separated segment of \<^verbatim>\<open>name_path\<close> with a trailing
  \<^verbatim>\<open>[<digits>]\<close> suffix removed when present; a record that already contains
  \<^verbatim>\<open>name\<close> keeps it unchanged. The record meant is the one the call leaves behind,
  whether a later step raises or not.
\<close>

theorem name_restored_from_name_path:
  "(field item ''name'' = None \<and> field item ''name_path'' = Some (JStr s) \<longrightarrow>
      field (item_after (transform_symbol_result item)) ''name''
        = Some (JStr (strip_trailing_index (last_segment s))))
   \<and> (field item ''name'' = Some v \<longrightarrow>
      field (item_after (transform_symbol_result item)) ''name'' = Some v)"
proof (intro conjI impI)
  assume a: "field item ''name'' = None \<and> field item ''name_path'' = Some (JStr s)"
  then obtain y where y: "restore_name item = Inr y"
    and n: "field y ''name'' = Some (JStr (strip_index (last (split_on CHR ''/'' s))))"
    using restore_name_sets by blast
  from y have "field (item_after (transform_symbol_result item)) ''name'' = field y ''name''"
    by (simp only: transform_after_name) (rule after_name_field, simp_all)
  with n show "field (item_after (transform_symbol_result item)) ''name''
        = Some (JStr (strip_trailing_index (last_segment s)))"
    by (simp add: strip_index_spec last_split_on last_segment_def)
next
  assume a: "field item ''name'' = Some v"
  then have "restore_name item = Inr item" by (rule restore_name_keeps)
  then have "field (item_after (transform_symbol_result item)) ''name'' = field item ''name''"
    by (simp only: transform_after_name) (rule after_name_field, simp_all)
  with a show "field (item_after (transform_symbol_result item)) ''name'' = Some v" by simp
qed

theorem name_restored_from_name_path_witness:
  "field (item_after (transform_symbol_result
       (JObj [(''name_path'', JStr ''MyClass/my_method[0]''), (''kind'', JInt 6)] :: unit json)))
     ''name'' = Some (JStr ''my_method'')"
  using name_restored_from_name_path
    [where item = "JObj [(''name_path'', JStr ''MyClass/my_method[0]''), (''kind'', JInt 6)] :: unit json"
       and s = "''MyClass/my_method[0]''"]
  by (simp add: last_segment_def strip_trailing_index_def is_digit_def)

text \<open>
  C2. For every raw record whose \<^verbatim>\<open>kind\<close> is an integer \<open>k\<close>, normalization
  replaces it with the lower-cased entry of the 26-entry table when \<open>1 \<le> k \<le> 26\<close> and
  with the decimal string of \<open>k\<close> otherwise; a non-integer \<^verbatim>\<open>kind\<close> is left
  unchanged. The integer part holds (\<open>kind_of_integer\<close>), and so does the second part
  for every value that fails \<^verbatim>\<open>isinstance(_, int)\<close> (\<open>kind_not_integer\<close>). It
  is broken by the JSON booleans: \<^verbatim>\<open>bool\<close> is a subclass of \<^verbatim>\<open>int\<close>, so the
  test lets \<^verbatim>\<open>true\<close> and \<^verbatim>\<open>false\<close> through; \<^verbatim>\<open>false\<close> becomes the
  string \<^verbatim>\<open>false\<close> (neither unchanged nor the decimal string of 0) and
  \<^verbatim>\<open>true\<close> becomes \<^verbatim>\<open>file\<close>, the table entry of 1.
\<close>

theorem kind_of_boolean:
  "transform_symbol_result (JObj [(''kind'', JBool False)] :: unit json)
     = Returned (JObj [(''kind'', JStr ''false'')])
   \<and> transform_symbol_result (JObj [(''kind'', JBool True)] :: unit json)
     = Returned (JObj [(''kind'', JStr ''file'')])"
  by code_simp

text \<open>
  C3, as stated: for every raw record the range is reconciled in priority order, (a) from
  \<^verbatim>\<open>range.start.line\<close> and \<^verbatim>\<open>range.end.line\<close> if both exist, (b) otherwise
  from \<^verbatim>\<open>body_location\<close> if it exists, (c) otherwise left unset; in particular any
  record that lacks a usable pair of lines but has a \<^verbatim>\<open>body_location\<close> with lines 10
  and 20 ends up with that range. This fails on the code: the \<^verbatim>\<open>elif\<close> that looks
  at \<^verbatim>\<open>body_location\<close> belongs to the test that \<^verbatim>\<open>range\<close> is a dict, so a
  record whose \<^verbatim>\<open>range\<close> is a dict without the pair of lines keeps that range and
  its \<^verbatim>\<open>body_location\<close> is not used. Besides, a \<^verbatim>\<open>body_location\<close> that is
  not a dict is not used either, and a record whose \<^verbatim>\<open>name_path\<close> is not a string
  makes the first step raise before the range is looked at.
\<close>

theorem range_reconciliation_counterexample:
  "transform_symbol_result
     (JObj [(''range'', JObj []),
            (''body_location'', JObj [(''start_line'', JInt 10), (''end_line'', JInt 20)])]
        :: unit json)
   = Returned
     (JObj [(''range'', JObj []),
            (''body_location'', JObj [(''start_line'', JInt 10), (''end_line'', JInt 20)])])
   \<and> field (item_after (transform_symbol_result
       (JObj [(''range'', JObj []),
              (''body_location'', JObj [(''start_line'', JInt 10), (''end_line'', JInt 20)])]
          :: unit json))) ''range''
     \<noteq> Some (JObj [(''start_line'', JInt 10), (''end_line'', JInt 20)])
   \<and> transform_symbol_result
     (JObj [(''name'', JStr ''f''), (''body_location'', JStr ''10-20'')] :: unit json)
   = Returned (JObj [(''name'', JStr ''f''), (''body_location'', JStr ''10-20'')])
   \<and> transform_symbol_result
     (JObj [(''name_path'', JInt 7),
            (''body_location'', JObj [(''start_line'', JInt 10), (''end_line'', JInt 20)])]
        :: unit json)
   = Raised AttributeError
     (JObj [(''name_path'', JInt 7),
            (''body_location'', JObj [(''start_line'', JInt 10), (''end_line'', JInt 20)])])"
  by (simp add: normalizer_defs)

text \<open>
  C3, amended. For every raw record on which the first step does not raise: (a) if
  \<^verbatim>\<open>range\<close> is a dict whose \<^verbatim>\<open>start\<close> and \<^verbatim>\<open>end\<close> are dicts that both
  have \<^verbatim>\<open>line\<close>, \<^verbatim>\<open>range\<close> becomes the dict of \<^verbatim>\<open>start_line\<close> and
  \<^verbatim>\<open>end_line\<close> taken from them; (b) if \<^verbatim>\<open>range\<close> is absent or is not a dict
  and \<^verbatim>\<open>body_location\<close> is a dict, \<^verbatim>\<open>body_location\<close> becomes the range;
  (c) if \<^verbatim>\<open>range\<close> is absent or not a dict and \<^verbatim>\<open>body_location\<close> is absent or
  not a dict, \<^verbatim>\<open>range\<close> is left as it is, and so is a \<^verbatim>\<open>range\<close> dict that lacks
  the pair of lines, whether \<^verbatim>\<open>body_location\<close> exists or not. In particular a
  record with no \<^verbatim>\<open>range\<close> and a \<^verbatim>\<open>body_location\<close> with lines 10 and 20 ends
  up with that range.
\<close>

theorem range_reconciliation:
  assumes "name_restorable item"
  shows "(field item ''range'' = Some (JObj r) \<and> map_of r ''start'' = Some (JObj st)
            \<and> map_of r ''end'' = Some (JObj en)
            \<and> map_of st ''line'' = Some a \<and> map_of en ''line'' = Some b \<longrightarrow>
          field (item_after (transform_symbol_result item)) ''range''
            = Some (JObj [(''start_line'', a), (''end_line'', b)]))
       \<and> ((\<forall>r'. field item ''range'' \<noteq> Some (JObj r'))
            \<and> field item ''body_location'' = Some (JObj bl) \<longrightarrow>
          field (item_after (transform_symbol_result item)) ''range'' = Some (JObj bl))
       \<and> ((\<forall>r'. field item ''range'' \<noteq> Some (JObj r'))
            \<and> (\<forall>bl'. field item ''body_location'' \<noteq> Some (JObj bl')) \<longrightarrow>
          field (item_after (transform_symbol_result item)) ''range'' = field item ''range'')
       \<and> (field item ''range'' = Some (JObj r) \<and> lacks_line_pair r \<longrightarrow>
          field (item_after (transform_symbol_result item)) ''range'' = Some (JObj r))"
proof (cases "\<exists>d. item = JObj d")
  case False
  then have "item_after (transform_symbol_result item) = item"
    by (simp add: transform_not_dict)
  moreover from False have "field item k = None" for k by (cases item) auto
  ultimately show ?thesis by simp
next
  case True
  then obtain d where d: "item = JObj d" by blast
  from range_after_steps assms d obtain d2 where
    r: "map_of d2 ''range'' = map_of d ''range''"
    and b: "map_of d2 ''body_location'' = map_of d ''body_location''"
    and f: "field (item_after (transform_symbol_result item)) ''range''
              = (case transform_range (JObj d2) of
                   Inl e \<Rightarrow> map_of d ''range''
                 | Inr y \<Rightarrow> field y ''range'')"
    by blast
  show ?thesis
  proof (intro conjI impI)
    assume "field item ''range'' = Some (JObj r) \<and> map_of r ''start'' = Some (JObj st)
            \<and> map_of r ''end'' = Some (JObj en)
            \<and> map_of st ''line'' = Some a \<and> map_of en ''line'' = Some b"
    with d r have "transform_range (JObj d2)
           = Inr (JObj (dict_set d2 ''range'' (JObj [(''start_line'', a), (''end_line'', b)])))"
      by (intro transform_range_lines) auto
    with f show "field (item_after (transform_symbol_result item)) ''range''
            = Some (JObj [(''start_line'', a), (''end_line'', b)])"
      by (simp add: map_of_dict_set)
  next
    assume "(\<forall>r'. field item ''range'' \<noteq> Some (JObj r'))
            \<and> field item ''body_location'' = Some (JObj bl)"
    with d r b have "transform_range (JObj d2) = Inr (JObj (dict_set d2 ''range'' (JObj bl)))"
      by (intro transform_range_body) auto
    with f show "field (item_after (transform_symbol_result item)) ''range'' = Some (JObj bl)"
      by (simp add: map_of_dict_set)
  next
    assume "(\<forall>r'. field item ''range'' \<noteq> Some (JObj r'))
            \<and> (\<forall>bl'. field item ''body_location'' \<noteq> Some (JObj bl'))"
    with d r b have "transform_range (JObj d2) = Inr (JObj d2)"
      by (intro transform_range_neither) auto
    with f r d show "field (item_after (transform_symbol_result item)) ''range''
            = field item ''range''"
      by simp
  next
    assume "field item ''range'' = Some (JObj r) \<and> lacks_line_pair r"
    with d r have "transform_range (JObj d2) = Inr (JObj d2)" "map_of d2 ''range'' = Some (JObj r)"
      by (auto intro: transform_range_lacking)
    with f show "field (item_after (transform_symbol_result item)) ''range'' = Some (JObj r)"
      by simp
  qed
qed

theorem range_reconciliation_witness:
  "field (item_after (transform_symbol_result
       (JObj [(''name_path'', JStr ''MyClass/my_method''),
              (''body_location'', JObj [(''start_line'', JInt 10), (''end_line'', JInt 20)])]
          :: unit json)))
     ''range'' = Some (JObj [(''start_line'', JInt 10), (''end_line'', JInt 20)])"
proof -
  let ?item = "JObj [(''name_path'', JStr ''MyClass/my_method''),
              (''body_location'', JObj [(''start_line'', JInt 10), (''end_line'', JInt 20)])]
          :: unit json"
  have n: "name_restorable ?item" by (simp add: name_restorable_def)
  from range_reconciliation [OF n, where bl = "[(''start_line'', JInt 10), (''end_line'', JInt 20)]"]
  show ?thesis by simp
qed

text \<open>
  C4, as stated: a record whose only location information is a
  \<^verbatim>\<open>selection_range\<close> with a \<^verbatim>\<open>start.line\<close> gets a canonical range with
  \<^verbatim>\<open>start_line\<close> taken from it. The code never reads \<^verbatim>\<open>selection_range\<close>:
  such a record is returned without a \<^verbatim>\<open>range\<close>.
\<close>

theorem selection_range_counterexample:
  "transform_symbol_result
     (JObj [(''name'', JStr ''f''),
            (''selection_range'', JObj [(''start'', JObj [(''line'', JInt 7)])])] :: unit json)
   = Returned
     (JObj [(''name'', JStr ''f''),
            (''selection_range'', JObj [(''start'', JObj [(''line'', JInt 7)])])])
   \<and> field (item_after (transform_symbol_result
       (JObj [(''name'', JStr ''f''),
              (''selection_range'', JObj [(''start'', JObj [(''line'', JInt 7)])])] :: unit json)))
     ''range'' = None"
  by (simp add: normalizer_defs)

text \<open>
  C4, amended. For every raw record with no \<^verbatim>\<open>range\<close> and no
  \<^verbatim>\<open>body_location\<close>, whatever its \<^verbatim>\<open>selection_range\<close>, normalization leaves
  the record without a \<^verbatim>\<open>range\<close> and keeps its \<^verbatim>\<open>selection_range\<close> field as it
  was.
\<close>

theorem selection_range_not_used:
  "field item ''range'' = None \<and> field item ''body_location'' = None \<longrightarrow>
     field (item_after (transform_symbol_result item)) ''range'' = None
     \<and> field (item_after (transform_symbol_result item)) ''selection_range''
         = field item ''selection_range''"
proof
  assume a: "field item ''range'' = None \<and> field item ''body_location'' = None"
  have "field (item_after (transform_symbol_result item)) ''range'' = None
        \<and> field (item_after (transform_symbol_result item)) ''body_location'' = None"
    unfolding transform_symbol_result_def
    by (rule run_steps_invariant
          [where P = "\<lambda>x. field x ''range'' = None \<and> field x ''body_location'' = None"])
       (rule step_keeps_no_range, assumption+, rule a)
  moreover have "field (item_after (transform_symbol_result item)) ''selection_range''
         = field item ''selection_range''"
    unfolding transform_symbol_result_def
  proof (rule run_steps_field)
    fix f and x y :: "'a json"
    assume "f \<in> set [restore_name, transform_kind, transform_range, ensure_file, guess_language]"
      and "f x = Inr y"
    then show "field y ''selection_range'' = field x ''selection_range''"
      by (auto simp: restore_name_frame transform_kind_frame transform_range_frame
          ensure_file_frame guess_language_frame)
  qed
  ultimately show "field (item_after (transform_symbol_result item)) ''range'' = None
     \<and> field (item_after (transform_symbol_result item)) ''selection_range''
         = field item ''selection_range''" by simp
qed

theorem selection_range_not_used_witness:
  "field (item_after (transform_symbol_result
       (JObj [(''name'', JStr ''f''),
              (''selection_range'', JObj [(''start'', JObj [(''line'', JInt 7)])])] :: unit json)))
     ''range'' = None
   \<and> field (item_after (transform_symbol_result
       (JObj [(''name'', JStr ''f''),
              (''selection_range'', JObj [(''start'', JObj [(''line'', JInt 7)])])] :: unit json)))
     ''selection_range'' = Some (JObj [(''start'', JObj [(''line'', JInt 7)])])"
  using selection_range_not_used
    [where item = "JObj [(''name'', JStr ''f''),
              (''selection_range'', JObj [(''start'', JObj [(''line'', JInt 7)])])] :: unit json"]
  by simp

text \<open>
  C5, as stated: normalization is idempotent, normalizing the result of a normalization
  gives the same record; equivalently a record that already contains \<^verbatim>\<open>name\<close>, a
  lower-case string \<^verbatim>\<open>kind\<close>, \<^verbatim>\<open>file\<close> and a \<^verbatim>\<open>range\<close> of
  \<^verbatim>\<open>start_line\<close> and \<^verbatim>\<open>end_line\<close> is returned identical. The function mutates
  its argument and returns it, so the claim is read on values: the record after two calls
  against the record after one. Both readings fail. A \<^verbatim>\<open>body_location\<close> that itself
  has \<^verbatim>\<open>start.line\<close> and \<^verbatim>\<open>end.line\<close> is copied to \<^verbatim>\<open>range\<close> by the
  first call and converted by the second; and a record of the described form with a
  \<^verbatim>\<open>.py\<close> file and no \<^verbatim>\<open>language\<close> gains a \<^verbatim>\<open>language\<close>.
\<close>

theorem normalization_idempotent_counterexample:
  "transform_symbol_result
     (JObj [(''body_location'',
              JObj [(''start'', JObj [(''line'', JInt 1)]), (''end'', JObj [(''line'', JInt 5)])])]
        :: unit json)
   = Returned
     (JObj [(''body_location'',
              JObj [(''start'', JObj [(''line'', JInt 1)]), (''end'', JObj [(''line'', JInt 5)])]),
            (''range'',
              JObj [(''start'', JObj [(''line'', JInt 1)]), (''end'', JObj [(''line'', JInt 5)])])])
   \<and> transform_symbol_result
     (JObj [(''body_location'',
              JObj [(''start'', JObj [(''line'', JInt 1)]), (''end'', JObj [(''line'', JInt 5)])]),
            (''range'',
              JObj [(''start'', JObj [(''line'', JInt 1)]), (''end'', JObj [(''line'', JInt 5)])])]
        :: unit json)
   = Returned
     (JObj [(''body_location'',
              JObj [(''start'', JObj [(''line'', JInt 1)]), (''end'', JObj [(''line'', JInt 5)])]),
            (''range'', JObj [(''start_line'', JInt 1), (''end_line'', JInt 5)])])
   \<and> transform_symbol_result
     (JObj [(''name'', JStr ''f''), (''kind'', JStr ''method''), (''file'', JStr ''src/foo.py''),
            (''range'', JObj [(''start_line'', JInt 1), (''end_line'', JInt 5)])] :: unit json)
   = Returned
     (JObj [(''name'', JStr ''f''), (''kind'', JStr ''method''), (''file'', JStr ''src/foo.py''),
            (''range'', JObj [(''start_line'', JInt 1), (''end_line'', JInt 5)]),
            (''language'', JStr ''python'')])"
  by (simp add: normalizer_defs splitext_ext_def)

text \<open>
  C5, amended. For every raw record on which the normalizer returns, normalizing the
  returned record returns it unchanged, provided the range was not copied from a
  \<^verbatim>\<open>body_location\<close> that has a \<^verbatim>\<open>start\<close> key: the \<^verbatim>\<open>range\<close> of the raw
  record is a dict, or its \<^verbatim>\<open>body_location\<close> is absent, is not a dict, or has no
  \<^verbatim>\<open>start\<close>. The already-normalized records are the records the normalizer returns.
\<close>

theorem normalization_idempotent:
  assumes "transform_symbol_result item = Returned item'"
    and "(\<exists>r. field item ''range'' = Some (JObj r))
         \<or> (\<forall>bl. field item ''body_location'' = Some (JObj bl) \<longrightarrow> map_of bl ''start'' = None)"
  shows "transform_symbol_result item' = Returned item'"
proof -
  from assms(1) obtain x1 x2 x3 x4 where
    s1: "restore_name item = Inr x1" and s2: "transform_kind x1 = Inr x2"
    and s3: "transform_range x2 = Inr x3" and s4: "ensure_file x3 = Inr x4"
    and s5: "guess_language x4 = Inr item'"
    unfolding transform_Returned_chain by blast
  show ?thesis
  proof (cases "\<exists>d. item = JObj d")
    case False
    then have n: "\<forall>d. item \<noteq> JObj d" by blast
    have 1: "x1 = item" using restore_name_shape [OF s1] n by (auto dest: setitem_is_dict)
    have 2: "x2 = item" using transform_kind_shape [OF s2] n 1 by (auto dest: setitem_is_dict)
    have 3: "x3 = item" using transform_range_shape [OF s3] n 2 by (auto dest: setitem_is_dict)
    have 4: "x4 = item" using ensure_file_shape [OF s4] n 3 by (auto dest: setitem_is_dict)
    have 5: "item' = item" using guess_language_shape [OF s5] n 4 by (auto dest: setitem_is_dict)
    from s1 s2 s3 s4 s5 1 2 3 4 5 show ?thesis by (intro transform_fixed) simp_all
  next
    case True
    then obtain d where d: "item = JObj d" by blast
    from shape_dict [OF restore_name_shape [OF s1] d] obtain d1 where d1: "x1 = JObj d1" by blast
    from shape_dict [OF transform_kind_shape [OF s2] d1] obtain d2 where d2: "x2 = JObj d2" by blast
    from shape_dict [OF transform_range_shape [OF s3] d2] obtain d3 where d3: "x3 = JObj d3" by blast
    from shape_dict [OF ensure_file_shape [OF s4] d3] obtain d4 where d4: "x4 = JObj d4" by blast
    from shape_dict [OF guess_language_shape [OF s5] d4] obtain d5 where d5: "item' = JObj d5" by blast
    have f1: "k \<noteq> ''name'' \<Longrightarrow> map_of d1 k = map_of d k" for k
      using restore_name_frame [OF s1, of k] d d1 by simp
    have f2: "k \<noteq> ''kind'' \<Longrightarrow> map_of d2 k = map_of d1 k" for k
      using transform_kind_frame [OF s2, of k] d1 d2 by simp
    have f3: "k \<noteq> ''range'' \<Longrightarrow> map_of d3 k = map_of d2 k" for k
      using transform_range_frame [OF s3, of k] d2 d3 by simp
    have f4: "k \<noteq> ''file'' \<Longrightarrow> map_of d4 k = map_of d3 k" for k
      using ensure_file_frame [OF s4, of k] d3 d4 by simp
    have f5: "k \<noteq> ''language'' \<Longrightarrow> map_of d5 k = map_of d4 k" for k
      using guess_language_frame [OF s5, of k] d4 d5 by simp
    have r1: "restore_name (JObj d5) = Inr (JObj d5)"
    proof (rule restore_name_noop)
      from s1 d d1 have "map_of d1 ''name'' \<noteq> None \<or> map_of d1 ''name_path'' = None"
        by (intro restore_name_result) simp
      then show "map_of d5 ''name'' \<noteq> None \<or> map_of d5 ''name_path'' = None"
        by (simp add: f2 f3 f4 f5)
    qed
    have r2: "transform_kind (JObj d5) = Inr (JObj d5)"
    proof (rule transform_kind_noop)
      from s2 d1 d2 have "\<forall>v. map_of d2 ''kind'' = Some v \<longrightarrow> \<not> isinstance_int v"
        by (intro transform_kind_result) simp
      then show "\<forall>v. map_of d5 ''kind'' = Some v \<longrightarrow> \<not> isinstance_int v"
        by (simp add: f3 f4 f5)
    qed
    have r3: "transform_range (JObj d5) = Inr (JObj d5)"
    proof (rule transform_range_cong)
      from assms(2) d have "(\<exists>r. map_of d2 ''range'' = Some (JObj r))
         \<or> (\<forall>bl. map_of d2 ''body_location'' = Some (JObj bl) \<longrightarrow> map_of bl ''start'' = None)"
        by (simp add: f1 f2)
      with s3 d2 d3 show "transform_range (JObj d3) = Inr (JObj d3)"
        by (intro transform_range_result) simp_all
      show "map_of d5 ''range'' = map_of d3 ''range''" by (simp add: f4 f5)
      show "map_of d5 ''body_location'' = map_of d3 ''body_location''" by (simp add: f4 f5)
    qed
    have r4: "ensure_file (JObj d5) = Inr (JObj d5)"
    proof (rule ensure_file_cong)
      from s4 d3 d4 show "ensure_file (JObj d4) = Inr (JObj d4)"
        by (intro ensure_file_result) simp
      show "map_of d5 ''relative_path'' = map_of d4 ''relative_path''" by (simp add: f5)
      show "map_of d5 ''file'' = map_of d4 ''file''" by (simp add: f5)
    qed
    have r5: "guess_language (JObj d5) = Inr (JObj d5)"
      using s5 d4 d5 by (intro guess_language_result) simp
    from r1 r2 r3 r4 r5 d5 show ?thesis by (simp add: transform_fixed)
  qed
qed

theorem normalization_idempotent_witness:
  "transform_symbol_result
     (JObj [(''name_path'', JStr ''MyClass/my_method[0]''), (''kind'', JStr ''method''),
            (''body_location'', JObj [(''start_line'', JInt 10), (''end_line'', JInt 20)]),
            (''relative_path'', JStr ''src/foo.py''), (''name'', JStr ''my_method''),
            (''range'', JObj [(''start_line'', JInt 10), (''end_line'', JInt 20)]),
            (''file'', JStr ''src/foo.py''), (''language'', JStr ''python'')] :: unit json)
   = Returned
     (JObj [(''name_path'', JStr ''MyClass/my_method[0]''), (''kind'', JStr ''method''),
            (''body_location'', JObj [(''start_line'', JInt 10), (''end_line'', JInt 20)]),
            (''relative_path'', JStr ''src/foo.py''), (''name'', JStr ''my_method''),
            (''range'', JObj [(''start_line'', JInt 10), (''end_line'', JInt 20)]),
            (''file'', JStr ''src/foo.py''), (''language'', JStr ''python'')])"
proof -
  let ?raw = "JObj [(''name_path'', JStr ''MyClass/my_method[0]''), (''kind'', JInt 6),
            (''body_location'', JObj [(''start_line'', JInt 10), (''end_line'', JInt 20)]),
            (''relative_path'', JStr ''src/foo.py'')] :: unit json"
  let ?normal = "JObj [(''name_path'', JStr ''MyClass/my_method[0]''), (''kind'', JStr ''method''),
            (''body_location'', JObj [(''start_line'', JInt 10), (''end_line'', JInt 20)]),
            (''relative_path'', JStr ''src/foo.py''), (''name'', JStr ''my_method''),
            (''range'', JObj [(''start_line'', JInt 10), (''end_line'', JInt 20)]),
            (''file'', JStr ''src/foo.py''), (''language'', JStr ''python'')] :: unit json"
  have 1: "transform_symbol_result ?raw = Returned ?normal"
    by code_simp
  have 2: "(\<exists>r. field ?raw ''range'' = Some (JObj r))
         \<or> (\<forall>bl. field ?raw ''body_location'' = Some (JObj bl) \<longrightarrow> map_of bl ''start'' = None)"
    by simp
  from normalization_idempotent [OF 1 2] show ?thesis .
qed

subsection \<open>The pipeline\<close>

text \<open>
  The language filter on readable items is \<open>filter\<close>; the parse loop distributes over
  the concatenation of content blocks; after the parse loop the warnings printed so far are
  followed by events that depend on the parsed data only.
\<close>

lemma filter_language_readable:
  assumes "\<forall>item \<in> set xs. language_readable item" and "L \<noteq> []"
  shows "filter_language (lower L) xs = Inr (filter (has_language L) xs)"
  using assms(1)
proof (induction xs)
  case Nil
  show ?case by simp
next
  case (Cons item xs)
  then have ih: "filter_language (lower L) xs = Inr (filter (has_language L) xs)" by simp
  from Cons.prems obtain d where d: "item = JObj d"
    by (cases item) (auto simp: language_readable_def)
  from assms(2) have l: "lower L \<noteq> []" by (simp add: lower_def)
  show ?case
  proof (cases "map_of d ''language''")
    case None
    with d have "\<not> has_language L item" by (simp add: has_language_def)
    moreover from l have "lower [] \<noteq> lower L" by (simp add: lower_def)
    ultimately show ?thesis using d None ih by (simp add: bnd_def)
  next
    case (Some v)
    with Cons.prems d obtain s where v: "v = JStr s"
      by (cases v) (auto simp: language_readable_def)
    with Some d have "has_language L item \<longleftrightarrow> lower s = lower L"
      by (simp add: has_language_def)
    then show ?thesis using d Some v ih by (simp add: bnd_def)
  qed
qed

lemma filter_language_unreadable:
  assumes "\<exists>item \<in> set xs. \<not> language_readable item"
  shows "filter_language t xs = Inl AttributeError"
  using assms
proof (induction xs)
  case Nil
  then show ?case by simp
next
  case (Cons item xs)
  show ?case
  proof (cases "language_readable item")
    case True
    with Cons have ih: "filter_language t xs = Inl AttributeError" by simp
    from True obtain d where d: "item = JObj d"
      by (cases item) (auto simp: language_readable_def)
    with True ih show ?thesis
      by (cases "map_of d ''language''"; cases "the (map_of d ''language'')")
         (auto simp: bnd_def language_readable_def)
  next
    case False
    show ?thesis
    proof (cases "\<exists>d. item = JObj d")
      case True
      then obtain d where d: "item = JObj d" by blast
      with False show ?thesis
        by (cases "map_of d ''language''"; cases "the (map_of d ''language'')")
           (auto simp: bnd_def language_readable_def)
    next
      case F: False
      then show ?thesis by (cases item) (auto simp: bnd_def)
    qed
  qed
qed

lemma parse_content_append:
  assumes "parse_content B pre acc = (w, Inr data)"
  shows "parse_content B (pre @ rest) acc
           = (w @ fst (parse_content B rest data), snd (parse_content B rest data))"
  using assms
proof (induction B pre acc arbitrary: w rule: parse_content.induct)
  case (1 B output_data)
  then show ?case by simp
next
  case (2 B rest' output_data)
  then show ?case by simp
next
  case (3 B t rest' output_data)
  show ?case
  proof (cases "loads B t")
    case (Inl e)
    show ?thesis
    proof (cases "e = JSONDecodeError")
      case True
      with Inl 3 show ?thesis by (auto split: prod.splits)
    next
      case False
      with Inl "3.prems" show ?thesis by (cases e) auto
    qed
  next
    case (Inr v)
    with 3 show ?thesis by (cases v) auto
  qed
qed

lemma parse_content_raises:
  assumes "parse_content B pre acc = (w, Inl e)"
  shows "parse_content B (pre @ rest) acc = (w, Inl e)"
  using assms
proof (induction B pre acc arbitrary: w rule: parse_content.induct)
  case (1 B output_data)
  then show ?case by simp
next
  case (2 B rest' output_data)
  then show ?case by simp
next
  case (3 B t rest' output_data)
  show ?case
  proof (cases "loads B t")
    case (Inl e')
    show ?thesis
    proof (cases "e' = JSONDecodeError")
      case True
      with Inl 3 show ?thesis by (auto split: prod.splits)
    next
      case False
      with Inl "3.prems" show ?thesis by (cases e') auto
    qed
  next
    case (Inr v)
    with 3 show ?thesis by (cases v) auto
  qed
qed



lemma parse_content_blocks:
  assumes "\<forall>c \<in> set blocks. block_parses B c"
  shows "parse_content B blocks acc
           = (concat (map (block_warnings B) blocks),
              Inr (acc @ concat (map (block_records B) blocks)))"
  using assms
proof (induction blocks arbitrary: acc)
  case Nil
  show ?case by simp
next
  case (Cons c rest)
  then have ih: "parse_content B rest acc'
           = (concat (map (block_warnings B) rest),
              Inr (acc' @ concat (map (block_records B) rest)))" for acc'
    by simp
  show ?case
  proof (cases c)
    case OtherContent
    have "block_records B OtherContent = []" "block_warnings B OtherContent = []"
      by (simp_all add: block_records_def block_warnings_def)
    with OtherContent ih show ?thesis by simp
  next
    case (TextContent t)
    show ?thesis
    proof (cases "loads B t")
      case (Inl e)
      with Cons.prems TextContent have e: "e = JSONDecodeError" by (simp add: block_parses_def)
      with Inl have "block_records B (TextContent t) = []"
        "block_warnings B (TextContent t) = [Stderr (Warning_non_json t)]"
        by (simp_all add: block_records_def block_warnings_def)
      with Inl e TextContent ih show ?thesis by simp
    next
      case (Inr v)
      then have w: "block_warnings B (TextContent t) = []"
        by (simp add: block_warnings_def)
      show ?thesis
      proof (cases v)
        case (JList xs)
        with Inr have "block_records B (TextContent t) = xs" by (simp add: block_records_def)
        with Inr JList w TextContent ih show ?thesis by simp
      next
        case (JObj d)
        with Inr have "block_records B (TextContent t) = [JObj d]"
          by (simp add: block_records_def)
        with Inr JObj w TextContent ih show ?thesis by simp
      next
        case JNull
        with Inr have "block_records B (TextContent t) = []" by (simp add: block_records_def)
        with Inr JNull w TextContent ih show ?thesis by simp
      next
        case (JBool b)
        with Inr have "block_records B (TextContent t) = []" by (simp add: block_records_def)
        with Inr JBool w TextContent ih show ?thesis by simp
      next
        case (JInt k)
        with Inr have "block_records B (TextContent t) = []" by (simp add: block_records_def)
        with Inr JInt w TextContent ih show ?thesis by simp
      next
        case (JFloat f)
        with Inr have "block_records B (TextContent t) = []" by (simp add: block_records_def)
        with Inr JFloat w TextContent ih show ?thesis by simp
      next
        case (JStr x)
        with Inr have "block_records B (TextContent t) = []" by (simp add: block_records_def)
        with Inr JStr w TextContent ih show ?thesis by simp
      qed
    qed
  qed
qed

lemma main_async_parsed:
  assumes "\<not> isError result"
    and "parse_content B (content result) [] = (warnings, Inr output_data)"
  shows "main_async B fmt q result =
           (case result_list q output_data of
              Inl e \<Rightarrow> fail_with warnings e
            | Inr final \<Rightarrow>
                (case print_output B fmt q final of
                   (evs, Some e) \<Rightarrow> fail_with (warnings @ evs) e
                 | (evs, None) \<Rightarrow> \<lparr>events = warnings @ evs, exit_code = 0\<rparr>))"
  using assms by (simp add: main_async_def)

lemma result_list_empty_hint:
  "result_list (FindSymbol name (Some []) limit) output_data =
     result_list (FindSymbol name None limit) output_data"
  by (cases limit) (simp_all add: result_list_def)

lemma print_output_language:
  "print_output B fmt (FindSymbol name (Some L) limit) output_data =
     print_output B fmt (FindSymbol name None limit) output_data"
  by (cases fmt) (simp_all add: print_output_def)

lemma main_async_empty_hint:
  "main_async B fmt (FindSymbol name (Some []) limit) result =
     main_async B fmt (FindSymbol name None limit) result"
  by (auto simp: main_async_def result_list_empty_hint print_output_language
      split: prod.splits sum.splits option.splits)

lemma parse_content_other_error:
  assumes "loads B t = Inl e" and "e \<noteq> JSONDecodeError"
  shows "parse_content B (TextContent t # post) acc = ([], Inl e)"
  using assms by (cases e) simp_all

lemma main_async_tail:
  "\<exists>tail code. \<forall>result ws.
      \<not> isError result \<and> parse_content B (content result) [] = (ws, r) \<longrightarrow>
        main_async B fmt q result = \<lparr>events = ws @ tail, exit_code = code\<rparr>"
proof (cases r)
  case (Inl e)
  then show ?thesis
    by (intro exI [of _ "[Stderr (Error_exception e)]"] exI [of _ 1])
       (simp add: main_async_def fail_with_def)
next
  case (Inr data)
  show ?thesis
  proof (cases "result_list q data")
    case (Inl e)
    with Inr show ?thesis
      by (intro exI [of _ "[Stderr (Error_exception e)]"] exI [of _ 1])
         (simp add: main_async_def fail_with_def)
  next
    case final: (Inr final)
    obtain evs eo where p: "print_output B fmt q final = (evs, eo)"
      by (cases "print_output B fmt q final")
    show ?thesis
    proof (cases eo)
      case None
      with Inr final p show ?thesis
        by (intro exI [of _ evs] exI [of _ 0]) (simp add: main_async_def)
    next
      case (Some e)
      with Inr final p show ?thesis
        by (intro exI [of _ "evs @ [Stderr (Error_exception e)]"] exI [of _ 1])
           (simp add: main_async_def fail_with_def)
    qed
  qed
qed

text \<open>
  C6, as stated: for every find-symbol invocation with a \<^verbatim>\<open>--language\<close> hint
  \<open>L\<close> the filter is applied client-side after normalization, never passed in the tool
  call; the resulting list holds exactly the normalized records whose \<^verbatim>\<open>language\<close>
  equals \<open>L\<close> case-insensitively, and \<^verbatim>\<open>--limit\<close> is applied after the filter.
  The guard of the filter is the truth value of \<^verbatim>\<open>args.language\<close>, and the empty
  string tests false: with \<^verbatim>\<open>--language ""\<close> nothing is filtered and a record whose
  language is \<^verbatim>\<open>python\<close> stays in the list.
\<close>

theorem language_filter_counterexample:
  "result_list (FindSymbol ''whatever'' (Some []) None)
     [JObj [(''name'', JStr ''foo''), (''relative_path'', JStr ''src/foo.py'')] :: unit json]
   = Inr [JObj [(''name'', JStr ''foo''), (''relative_path'', JStr ''src/foo.py''),
                (''file'', JStr ''src/foo.py''), (''language'', JStr ''python'')]]"
  by code_simp

text \<open>
  C6, amended. For every find-symbol invocation whose response parses and whose records the
  normalizer returns: the tool call carries \<^verbatim>\<open>name_path_pattern\<close> only, whatever
  the hint. With a non-empty \<^verbatim>\<open>--language\<close> hint \<open>L\<close>: if every normalized item is
  a dict whose \<^verbatim>\<open>language\<close> is absent or a string, the resulting list is the limit
  applied to exactly those normalized records whose \<^verbatim>\<open>language\<close> equals \<open>L\<close>
  under case-insensitive comparison, and this list is what the run prints; otherwise the
  filter raises \<^verbatim>\<open>AttributeError\<close>, the run prints the error after the warnings and
  ends with exit code 1. With the empty hint nothing is filtered: the list is the limit
  applied to all normalized records and the run is the run without the hint.
\<close>

theorem language_filter_client_side:
  assumes "\<not> isError result"
    and "parse_content B (content result) [] = (warnings, Inr output_data)"
    and "transform_all output_data = Inr normalized"
  shows "tool_call (FindSymbol name (Some L) limit)
           = (''find_symbol'', [(''name_path_pattern'', name)])
       \<and> (L \<noteq> [] \<and> (\<forall>item \<in> set normalized. language_readable item) \<longrightarrow>
            result_list (FindSymbol name (Some L) limit) output_data
              = Inr (apply_limit (FindSymbol name (Some L) limit)
                       (filter (has_language L) normalized))
            \<and> main_async B fmt (FindSymbol name (Some L) limit) result
              = (case print_output B fmt (FindSymbol name (Some L) limit)
                        (apply_limit (FindSymbol name (Some L) limit)
                           (filter (has_language L) normalized)) of
                   (evs, Some e) \<Rightarrow> fail_with (warnings @ evs) e
                 | (evs, None) \<Rightarrow> \<lparr>events = warnings @ evs, exit_code = 0\<rparr>))
       \<and> (L \<noteq> [] \<and> \<not> (\<forall>item \<in> set normalized. language_readable item) \<longrightarrow>
            result_list (FindSymbol name (Some L) limit) output_data = Inl AttributeError
            \<and> main_async B fmt (FindSymbol name (Some L) limit) result
              = \<lparr>events = warnings @ [Stderr (Error_exception AttributeError)],
                 exit_code = 1\<rparr>)
       \<and> (L = [] \<longrightarrow>
            result_list (FindSymbol name (Some L) limit) output_data
              = Inr (apply_limit (FindSymbol name (Some L) limit) normalized)
            \<and> main_async B fmt (FindSymbol name (Some L) limit) result
              = main_async B fmt (FindSymbol name None limit) result)"
proof (intro conjI impI)
  show "tool_call (FindSymbol name (Some L) limit)
           = (''find_symbol'', [(''name_path_pattern'', name)])" by simp
next
  assume a: "L \<noteq> [] \<and> (\<forall>item \<in> set normalized. language_readable item)"
  with assms(3) show r: "result_list (FindSymbol name (Some L) limit) output_data
              = Inr (apply_limit (FindSymbol name (Some L) limit)
                       (filter (has_language L) normalized))"
    by (simp add: result_list_def bnd_def filter_language_readable)
  show "main_async B fmt (FindSymbol name (Some L) limit) result
              = (case print_output B fmt (FindSymbol name (Some L) limit)
                        (apply_limit (FindSymbol name (Some L) limit)
                           (filter (has_language L) normalized)) of
                   (evs, Some e) \<Rightarrow> fail_with (warnings @ evs) e
                 | (evs, None) \<Rightarrow> \<lparr>events = warnings @ evs, exit_code = 0\<rparr>)"
    unfolding main_async_parsed [OF assms(1,2)] r by simp
next
  assume a: "L \<noteq> [] \<and> \<not> (\<forall>item \<in> set normalized. language_readable item)"
  with assms(3) show r: "result_list (FindSymbol name (Some L) limit) output_data
      = Inl AttributeError"
    by (simp add: result_list_def bnd_def filter_language_unreadable)
  show "main_async B fmt (FindSymbol name (Some L) limit) result
              = \<lparr>events = warnings @ [Stderr (Error_exception AttributeError)],
                 exit_code = 1\<rparr>"
    unfolding main_async_parsed [OF assms(1,2)] r by (simp add: fail_with_def)
next
  assume "L = []"
  with assms(3) show "result_list (FindSymbol name (Some L) limit) output_data
              = Inr (apply_limit (FindSymbol name (Some L) limit) normalized)"
    by (simp add: result_list_def bnd_def)
next
  assume "L = []"
  then show "main_async B fmt (FindSymbol name (Some L) limit) result
              = main_async B fmt (FindSymbol name None limit) result"
    by (simp add: main_async_empty_hint)
qed

theorem language_filter_client_side_witness:
  "result_list (FindSymbol ''whatever'' (Some ''TypeScript'') (Some 5))
     [JObj [(''name_path'', JStr ''foo''), (''kind'', JInt 6), (''relative_path'', JStr ''src/foo.py'')],
      JObj [(''name_path'', JStr ''bar''), (''kind'', JInt 6), (''relative_path'', JStr ''src/bar.ts'')]
       :: unit json]
   = Inr [JObj [(''name_path'', JStr ''bar''), (''kind'', JStr ''method''),
                (''relative_path'', JStr ''src/bar.ts''), (''name'', JStr ''bar''),
                (''file'', JStr ''src/bar.ts''), (''language'', JStr ''typescript'')]]"
proof -
  let ?data = "[JObj [(''name_path'', JStr ''foo''), (''kind'', JInt 6), (''relative_path'', JStr ''src/foo.py'')],
      JObj [(''name_path'', JStr ''bar''), (''kind'', JInt 6), (''relative_path'', JStr ''src/bar.ts'')]
       :: unit json]"
  let ?normalized = "[JObj [(''name_path'', JStr ''foo''), (''kind'', JStr ''method''),
                (''relative_path'', JStr ''src/foo.py''), (''name'', JStr ''foo''),
                (''file'', JStr ''src/foo.py''), (''language'', JStr ''python'')],
      JObj [(''name_path'', JStr ''bar''), (''kind'', JStr ''method''),
                (''relative_path'', JStr ''src/bar.ts''), (''name'', JStr ''bar''),
                (''file'', JStr ''src/bar.ts''), (''language'', JStr ''typescript'')] :: unit json]"
  let ?B = "\<lparr>loads = (\<lambda>t. Inr (JList ?data)), dumps = (\<lambda>v. ''{}''),
              format_value = (\<lambda>v spec. Inr [])\<rparr> :: unit builtins"
  let ?R = "\<lparr>isError = False, content = [TextContent ''data'']\<rparr>"
  have 1: "\<not> isError ?R" by simp
  have 2: "parse_content ?B (content ?R) [] = ([], Inr ?data)" by simp
  have 3: "transform_all ?data = Inr ?normalized" by code_simp
  have 4: "''TypeScript'' \<noteq> [] \<and> (\<forall>item \<in> set ?normalized. language_readable item)"
    by (simp add: language_readable_def)
  have 5: "apply_limit (FindSymbol ''whatever'' (Some ''TypeScript'') (Some 5))
             (filter (has_language ''TypeScript'') ?normalized)
           = [JObj [(''name_path'', JStr ''bar''), (''kind'', JStr ''method''),
                (''relative_path'', JStr ''src/bar.ts''), (''name'', JStr ''bar''),
                (''file'', JStr ''src/bar.ts''), (''language'', JStr ''typescript'')]]"
    by code_simp
  note T = language_filter_client_side [OF 1 2 3, where L = "''TypeScript''"
      and name = "''whatever''" and limit = "Some 5" and fmt = Text]
  from T [THEN conjunct2, THEN conjunct1] 4 5 show ?thesis by simp
qed

text \<open>
  C7. For every find-symbol invocation whose final (normalized, filtered, limited) result
  list is empty, text mode prints the literal line \<^verbatim>\<open>No symbols found.\<close> and JSON
  mode prints the envelope \<^verbatim>\<open>{"results": []}\<close>, that is
  \<^verbatim>\<open>json.dumps\<close> of the dict whose only key \<^verbatim>\<open>results\<close> holds the empty
  list. Nothing else reaches the output stream, the warnings of the parse loop are all that
  reaches the error stream, and the exit code is 0.
\<close>

theorem empty_result_rendering:
  assumes "\<not> isError result"
    and "parse_content B (content result) [] = (warnings, Inr output_data)"
    and "result_list (FindSymbol name language limit) output_data = Inr []"
  shows "main_async B Text (FindSymbol name language limit) result =
           \<lparr>events = warnings @ [Stdout ''No symbols found.''], exit_code = 0\<rparr>
         \<and> main_async B Json (FindSymbol name language limit) result =
           \<lparr>events = warnings @ [Stdout (dumps B (JObj [(''results'', JList [])]))],
            exit_code = 0\<rparr>"
  using assms by (simp add: main_async_def print_output_def)

theorem empty_result_rendering_witness:
  "main_async (\<lparr>loads = (\<lambda>t. Inr (JList [])), dumps = (\<lambda>v. ''{}''),
                format_value = (\<lambda>v spec. Inr [])\<rparr> :: unit builtins)
      Text (FindSymbol ''f'' None None) \<lparr>isError = False, content = [TextContent ''[]'']\<rparr>
     = \<lparr>events = [Stdout ''No symbols found.''], exit_code = 0\<rparr>
   \<and> main_async (\<lparr>loads = (\<lambda>t. Inr (JList [])), dumps = (\<lambda>v. ''{}''),
                format_value = (\<lambda>v spec. Inr [])\<rparr> :: unit builtins)
      Json (FindSymbol ''f'' None None) \<lparr>isError = False, content = [TextContent ''[]'']\<rparr>
     = \<lparr>events = [Stdout ''{}''], exit_code = 0\<rparr>"
proof -
  let ?B = "\<lparr>loads = (\<lambda>t. Inr (JList [])), dumps = (\<lambda>v. ''{}''),
              format_value = (\<lambda>v spec. Inr [])\<rparr> :: unit builtins"
  let ?R = "\<lparr>isError = False, content = [TextContent ''[]'']\<rparr>"
  have 1: "\<not> isError ?R" by simp
  have 2: "parse_content ?B (content ?R) [] = ([], Inr [])" by simp
  have 3: "result_list (FindSymbol ''f'' None None) ([] :: unit json list) = Inr []"
    by (simp add: result_list_def bnd_def)
  from empty_result_rendering [OF 1 2 3] show ?thesis by simp
qed

text \<open>
  C8, as stated: for every non-error tool response, a content block whose text is not valid
  JSON contributes no records, a warning is written to the error stream, the block is
  skipped, the records of the remaining blocks are still normalized and printed, and the
  block by itself never causes a non-zero exit. The loop catches
  \<^verbatim>\<open>json.JSONDecodeError\<close> only, and \<^verbatim>\<open>json.loads\<close> does not raise it on
  every text that is not valid JSON: it accepts the constant \<^verbatim>\<open>NaN\<close>. On the block
  \<^verbatim>\<open>[NaN]\<close> it returns the list holding a float; the normalizer raises
  \<^verbatim>\<open>TypeError\<close> on the float, and the run ends with exit code 1 and no warning. On
  the block \<^verbatim>\<open>NaN\<close> it returns a float, which is dropped without a warning.
\<close>

theorem malformed_block_counterexample:
  "main_async
     (\<lparr>loads = (\<lambda>t. if t = ''[NaN]'' then Inr (JList [JFloat ()])
                     else if t = ''NaN'' then Inr (JFloat ()) else Inl JSONDecodeError),
       dumps = (\<lambda>v. ''{}''), format_value = (\<lambda>v spec. Inr [])\<rparr> :: unit builtins)
     Text (FindSymbol ''f'' None None)
     \<lparr>isError = False, content = [TextContent ''[NaN]'']\<rparr>
   = \<lparr>events = [Stderr (Error_exception TypeError)], exit_code = 1\<rparr>
   \<and> main_async
     (\<lparr>loads = (\<lambda>t. if t = ''[NaN]'' then Inr (JList [JFloat ()])
                     else if t = ''NaN'' then Inr (JFloat ()) else Inl JSONDecodeError),
       dumps = (\<lambda>v. ''{}''), format_value = (\<lambda>v spec. Inr [])\<rparr> :: unit builtins)
     Text (FindSymbol ''f'' None None)
     \<lparr>isError = False, content = [TextContent ''NaN'']\<rparr>
   = \<lparr>events = [Stdout ''No symbols found.''], exit_code = 0\<rparr>"
  by (simp add: main_async_def result_list_def normalizer_defs fail_with_def print_output_def)

text \<open>
  C8, amended. For every non-error tool response and every content block on whose text
  \<^verbatim>\<open>json.loads\<close> raises \<^verbatim>\<open>JSONDecodeError\<close>: the run with the block writes
  what the run without it writes, with the one warning inserted after the warnings of the
  earlier blocks, and has the same exit code (when an earlier block raised another
  exception the loop never reaches the block and the two runs are equal). When no other
  block stops the loop, the parsed data are the records of the other blocks in order (the
  elements of every list block, every object block), they are normalized, filtered and
  limited, and when printing succeeds the run writes the warnings and then the printed
  list, with exit code 0. A block on which \<^verbatim>\<open>json.loads\<close> raises another exception
  ends the run: the error is printed after the warnings so far and the exit code is 1.
\<close>

theorem malformed_block_skipped:
  assumes "loads B t = Inl JSONDecodeError"
  shows "(case parse_content B pre [] of
           (w, Inl e) \<Rightarrow>
             main_async B fmt q \<lparr>isError = False, content = pre @ TextContent t # post\<rparr>
               = main_async B fmt q \<lparr>isError = False, content = pre @ post\<rparr>
         | (w, Inr data) \<Rightarrow>
             (\<exists>after.
                events (main_async B fmt q \<lparr>isError = False, content = pre @ post\<rparr>)
                  = w @ after
              \<and> events (main_async B fmt q
                          \<lparr>isError = False, content = pre @ TextContent t # post\<rparr>)
                  = w @ Stderr (Warning_non_json t) # after
              \<and> exit_code (main_async B fmt q
                             \<lparr>isError = False, content = pre @ TextContent t # post\<rparr>)
                  = exit_code (main_async B fmt q \<lparr>isError = False, content = pre @ post\<rparr>)))
       \<and> ((\<forall>c \<in> set (pre @ post). block_parses B c)
            \<and> result_list q (concat (map (block_records B) (pre @ post))) = Inr final
            \<and> print_output B fmt q final = (evs, None) \<longrightarrow>
          main_async B fmt q \<lparr>isError = False, content = pre @ TextContent t # post\<rparr>
            = \<lparr>events = concat (map (block_warnings B) pre) @ Stderr (Warning_non_json t)
                        # concat (map (block_warnings B) post) @ evs,
               exit_code = 0\<rparr>)
       \<and> (loads B t' = Inl e' \<and> e' \<noteq> JSONDecodeError
            \<and> parse_content B pre [] = (w', Inr data') \<longrightarrow>
          main_async B fmt q \<lparr>isError = False, content = pre @ TextContent t' # post\<rparr>
            = \<lparr>events = w' @ [Stderr (Error_exception e')], exit_code = 1\<rparr>)"
proof (intro conjI impI)
  show "case parse_content B pre [] of
           (w, Inl e) \<Rightarrow>
             main_async B fmt q \<lparr>isError = False, content = pre @ TextContent t # post\<rparr>
               = main_async B fmt q \<lparr>isError = False, content = pre @ post\<rparr>
         | (w, Inr data) \<Rightarrow>
             (\<exists>after.
                events (main_async B fmt q \<lparr>isError = False, content = pre @ post\<rparr>)
                  = w @ after
              \<and> events (main_async B fmt q
                          \<lparr>isError = False, content = pre @ TextContent t # post\<rparr>)
                  = w @ Stderr (Warning_non_json t) # after
              \<and> exit_code (main_async B fmt q
                             \<lparr>isError = False, content = pre @ TextContent t # post\<rparr>)
                  = exit_code (main_async B fmt q \<lparr>isError = False, content = pre @ post\<rparr>))"
  proof (cases "parse_content B pre []")
    case (Pair w r)
    show ?thesis
    proof (cases r)
      case (Inl e)
      with Pair have "parse_content B (pre @ TextContent t # post) [] = (w, Inl e)"
        and "parse_content B (pre @ post) [] = (w, Inl e)"
        by (simp_all add: parse_content_raises)
      with Pair Inl show ?thesis by (simp add: main_async_def)
    next
      case (Inr data)
      obtain w' r' where post: "parse_content B post data = (w', r')"
        by (cases "parse_content B post data")
      from Pair Inr post have without: "parse_content B (pre @ post) [] = (w @ w', r')"
        by (simp add: parse_content_append)
      from assms post have "parse_content B (TextContent t # post) data
          = (Stderr (Warning_non_json t) # w', r')" by simp
      with Pair Inr have with_block: "parse_content B (pre @ TextContent t # post) []
          = (w @ Stderr (Warning_non_json t) # w', r')"
        by (simp add: parse_content_append)
      from main_async_tail [of B r' fmt q] obtain tail code where
        t: "\<And>result ws. \<not> isError result \<Longrightarrow> parse_content B (content result) [] = (ws, r') \<Longrightarrow>
              main_async B fmt q result = \<lparr>events = ws @ tail, exit_code = code\<rparr>"
        by blast
      have a: "main_async B fmt q \<lparr>isError = False, content = pre @ post\<rparr>
                 = \<lparr>events = (w @ w') @ tail, exit_code = code\<rparr>"
        by (rule t) (simp_all add: without)
      have b: "main_async B fmt q \<lparr>isError = False, content = pre @ TextContent t # post\<rparr>
                 = \<lparr>events = (w @ Stderr (Warning_non_json t) # w') @ tail, exit_code = code\<rparr>"
        by (rule t) (simp_all add: with_block)
      from a b Pair Inr show ?thesis by simp
    qed
  qed
next
  assume a: "(\<forall>c \<in> set (pre @ post). block_parses B c)
            \<and> result_list q (concat (map (block_records B) (pre @ post))) = Inr final
            \<and> print_output B fmt q final = (evs, None)"
  from assms have bad: "block_parses B (TextContent t)" "block_records B (TextContent t) = []"
    "block_warnings B (TextContent t) = [Stderr (Warning_non_json t)]"
    by (simp_all add: block_parses_def block_records_def block_warnings_def)
  with a have "\<forall>c \<in> set (pre @ TextContent t # post). block_parses B c" by auto
  from parse_content_blocks [OF this, of "[]"] bad
  have p: "parse_content B (pre @ TextContent t # post) []
      = (concat (map (block_warnings B) pre) @ Stderr (Warning_non_json t)
            # concat (map (block_warnings B) post),
         Inr (concat (map (block_records B) (pre @ post))))"
    by simp
  have "main_async B fmt q \<lparr>isError = False, content = pre @ TextContent t # post\<rparr>
      = (case result_list q (concat (map (block_records B) (pre @ post))) of
              Inl e \<Rightarrow> fail_with (concat (map (block_warnings B) pre) @ Stderr (Warning_non_json t)
            # concat (map (block_warnings B) post)) e
            | Inr final \<Rightarrow>
                (case print_output B fmt q final of
                   (evs, Some e) \<Rightarrow> fail_with ((concat (map (block_warnings B) pre) @ Stderr (Warning_non_json t)
            # concat (map (block_warnings B) post)) @ evs) e
                 | (evs, None) \<Rightarrow> \<lparr>events = (concat (map (block_warnings B) pre) @ Stderr (Warning_non_json t)
            # concat (map (block_warnings B) post)) @ evs, exit_code = 0\<rparr>))"
    by (rule main_async_parsed) (simp_all add: p)
  with a show "main_async B fmt q \<lparr>isError = False, content = pre @ TextContent t # post\<rparr>
            = \<lparr>events = concat (map (block_warnings B) pre) @ Stderr (Warning_non_json t)
                        # concat (map (block_warnings B) post) @ evs,
               exit_code = 0\<rparr>"
    by simp
next
  assume a: "loads B t' = Inl e' \<and> e' \<noteq> JSONDecodeError
            \<and> parse_content B pre [] = (w', Inr data')"
  then have l: "loads B t' = Inl e'" and ne: "e' \<noteq> JSONDecodeError" by simp_all
  have "parse_content B (TextContent t' # post) data' = ([], Inl e')"
    by (rule parse_content_other_error [OF l ne])
  with a have "parse_content B (pre @ TextContent t' # post) [] = (w', Inl e')"
    by (simp add: parse_content_append)
  then show "main_async B fmt q \<lparr>isError = False, content = pre @ TextContent t' # post\<rparr>
            = \<lparr>events = w' @ [Stderr (Error_exception e')], exit_code = 1\<rparr>"
    by (simp add: main_async_def fail_with_def)
qed

theorem malformed_block_skipped_witness:
  "main_async
     (\<lparr>loads = (\<lambda>t. if t = ''first'' then Inr (JList [JObj [(''name'', JStr ''a'')]])
                     else if t = ''second'' then Inr (JObj [(''name'', JStr ''b'')])
                     else Inl JSONDecodeError),
       dumps = (\<lambda>v. ''{}''),
       format_value = (\<lambda>v spec. case v of JStr s \<Rightarrow> Inr s | _ \<Rightarrow> Inr ''#'')\<rparr>
        :: unit builtins)
     Text (FindSymbol ''f'' None None)
     \<lparr>isError = False,
      content = [TextContent ''first''] @ TextContent ''oops'' # [TextContent ''second'']\<rparr>
   = \<lparr>events = [Stderr (Warning_non_json ''oops''), Stdout ''a ? ?:?'', Stdout ''b ? ?:?''],
      exit_code = 0\<rparr>"
proof -
  let ?B = "\<lparr>loads = (\<lambda>t. if t = ''first'' then Inr (JList [JObj [(''name'', JStr ''a'')]])
                     else if t = ''second'' then Inr (JObj [(''name'', JStr ''b'')])
                     else Inl JSONDecodeError),
       dumps = (\<lambda>v. ''{}''),
       format_value = (\<lambda>v spec. case v of JStr s \<Rightarrow> Inr s | _ \<Rightarrow> Inr ''#'')\<rparr>
        :: unit builtins"
  let ?q = "FindSymbol ''f'' None None"
  let ?final = "[JObj [(''name'', JStr ''a'')], JObj [(''name'', JStr ''b'')]] :: unit json list"
  let ?evs = "[Stdout ''a ? ?:?'', Stdout ''b ? ?:?'']"
  have 1: "loads ?B ''oops'' = Inl JSONDecodeError" by simp
  have 2: "\<forall>c \<in> set ([TextContent ''first''] @ [TextContent ''second'']). block_parses ?B c"
    by (simp add: block_parses_def)
  have 3: "concat (map (block_records ?B) ([TextContent ''first''] @ [TextContent ''second'']))
      = ?final"
    by (simp add: block_records_def)
  have 4: "result_list ?q ?final = Inr ?final"
    by (simp add: result_list_def normalizer_defs)
  have 5: "print_output ?B Text ?q ?final = (?evs, None)"
    by (simp add: print_output_def find_symbol_row_def start_line_of_def bnd_def)
  have 6: "concat (map (block_warnings ?B) [TextContent ''first'']) = []"
    "concat (map (block_warnings ?B) [TextContent ''second'']) = []"
    by (simp_all add: block_warnings_def)
  note T = malformed_block_skipped [OF 1, where pre = "[TextContent ''first'']"
      and post = "[TextContent ''second'']" and fmt = Text and q = ?q
      and final = ?final and evs = ?evs]
  from T [THEN conjunct2, THEN conjunct1] 2 3 4 5 show ?thesis
    unfolding 6 by simp
qed



subsection \<open>The project status\<close>

text \<open>
  C10. The project status operation is total: for every environment (library importable
  or not, agent construction failing, project lookup raising) \<^verbatim>\<open>get_status\<close>
  never raises and returns a mapping with exactly the three keys
  \<^verbatim>\<open>serena_available\<close>, \<^verbatim>\<open>project_detected\<close> and \<^verbatim>\<open>index_state\<close>;
  \<^verbatim>\<open>project_detected\<close> is \<^verbatim>\<open>False\<close> and \<^verbatim>\<open>index_state\<close> is
  \<^verbatim>\<open>unknown\<close> whenever the agent or the project cannot be obtained (and they are
  \<^verbatim>\<open>True\<close> and \<^verbatim>\<open>configured\<close> when both are obtained).
\<close>

theorem get_status_total:
  fixes env :: "('agent, 'project) environment" and self :: "'agent serena_client"
  shows "\<exists>status self'.
     (get_status env self :: error + ((string \<times> 'f json) list \<times> 'agent serena_client))
       = Inr (status, self')
     \<and> map fst status = [''serena_available'', ''project_detected'', ''index_state'']
     \<and> map_of status ''serena_available'' = Some (JBool (SERENA_AVAILABLE env))
     \<and> (\<not> project_obtained env self \<longrightarrow>
          map_of status ''project_detected'' = Some (JBool False)
          \<and> map_of status ''index_state'' = Some (JStr ''unknown''))
     \<and> (project_obtained env self \<longrightarrow>
          map_of status ''project_detected'' = Some (JBool True)
          \<and> map_of status ''index_state'' = Some (JStr ''configured''))"
  by (auto simp: get_status_def status_try_def project_obtained_def bnd_def Let_def
      split: sum.splits option.splits)

theorem get_status_total_witness:
  "\<exists>self'. (get_status
       \<lparr>SERENA_AVAILABLE = True, SerenaAgent = (Inl (OtherError ''no server'') :: error + unit),
        get_project = (\<lambda>a root. (Inr None :: error + unit option))\<rparr>
       \<lparr>project_root = ''.'', agent = None\<rparr>
     :: error + ((string \<times> unit json) list \<times> unit serena_client))
     = Inr ([(''serena_available'', JBool True), (''project_detected'', JBool False),
             (''index_state'', JStr ''unknown'')], self')"
  using get_status_total [where env = "\<lparr>SERENA_AVAILABLE = True,
        SerenaAgent = (Inl (OtherError ''no server'') :: error + unit),
        get_project = (\<lambda>a root. (Inr None :: error + unit option))\<rparr>"
      and self = "\<lparr>project_root = ''.'', agent = None\<rparr>" and ?'f = unit]
  by (simp add: get_status_def status_try_def ensure_agent_def bnd_def)

end
